theory Spec2Isabelle
  imports Complex_Main
begin

section \<open>Night-sky simulator: star positions and rendering attributes\<close>

text \<open>
  The development embeds \<^verbatim>\<open>SkySimulator\<close> of \<^verbatim>\<open>sky_simulator.py\<close> and of
  \<^verbatim>\<open>sky_simulator_gui.py\<close>. Magnitudes, angles and sizes are floats (binary64) in
  the program. A finite float is modelled by the real number it denotes. Angles and
  magnitudes are only compared and copied, which is exact; the point sizes are computed, and
  each operation of that computation is modelled with the rounding of binary64 arithmetic
  (to the nearest float, ties to even, overflow to an infinity). The facts about sizes hold
  for every real magnitude, in particular for every finite float. A magnitude that is
  infinite or not a number is not modelled; the filter of \<^verbatim>\<open>load_star_catalog\<close> keeps
  no row whose magnitude is not a number. NumPy arrays are lists. Exceptions are values of \<open>error\<close>, one
  constructor for each place that raises: \<open>ValueError\<close> is the simulator's own check of
  its state, \<open>OverflowError\<close> is timestamp arithmetic leaving the years 1 to 9999, and
  \<open>ProviderError\<close> is any exception of the astronomy library.
\<close>

datatype error = ValueError | OverflowError | ProviderError

subsection \<open>Timestamps (\<^verbatim>\<open>datetime.datetime\<close>)\<close>

text \<open>
  A time zone object is either the singleton \<^verbatim>\<open>timezone.utc\<close> or some other zone with
  a fixed offset from UTC, in microseconds (possibly zero). A naive timestamp has no zone.
\<close>

datatype tz = UTC | Fixed int

record datetime =
  year :: int
  month :: int
  day :: int
  hour :: int
  minute :: int
  second :: int
  microsecond :: int
  tzinfo :: "tz option"

fun utcoffset :: "tz \<Rightarrow> int" where
  "utcoffset UTC = 0"
| "utcoffset (Fixed off) = off"

text \<open>
  The program converts timestamps with \<^verbatim>\<open>replace\<close> and \<^verbatim>\<open>astimezone\<close> of the standard
  library. Their arithmetic is modelled after the library's own
  \<^verbatim>\<open>_is_leap\<close>, \<^verbatim>\<open>_days_before_year\<close>, \<^verbatim>\<open>_days_before_month\<close>, \<^verbatim>\<open>_ymd2ord\<close>,
  \<^verbatim>\<open>_ord2ymd\<close>, \<^verbatim>\<open>datetime.__add__\<close> and \<^verbatim>\<open>datetime.astimezone\<close>: a date is counted
  as its proleptic Gregorian ordinal, day 1 being the first of January of year 1.
\<close>

definition is_leap :: "int \<Rightarrow> bool" where
  "is_leap y = (y mod 4 = 0 \<and> (y mod 100 \<noteq> 0 \<or> y mod 400 = 0))"

definition DAYS_IN_MONTH :: "int list" where
  "DAYS_IN_MONTH = [-1, 31, 28, 31, 30, 31, 30, 31, 31, 30, 31, 30, 31]"

definition DAYS_BEFORE_MONTH :: "int list" where
  "DAYS_BEFORE_MONTH = [-1, 0, 31, 59, 90, 120, 151, 181, 212, 243, 273, 304, 334]"

definition days_before_year :: "int \<Rightarrow> int" where
  "days_before_year yr = (let y = yr - 1 in y * 365 + y div 4 - y div 100 + y div 400)"

definition days_before_month :: "int \<Rightarrow> int \<Rightarrow> int" where
  "days_before_month yr mo =
     DAYS_BEFORE_MONTH ! nat mo + (if 2 < mo \<and> is_leap yr then 1 else 0)"

definition ymd2ord :: "int \<Rightarrow> int \<Rightarrow> int \<Rightarrow> int" where
  "ymd2ord yr mo d = days_before_year yr + days_before_month yr mo + d"

definition ord2ymd :: "int \<Rightarrow> int \<times> int \<times> int" where
  "ord2ymd n0 =
     (let n = n0 - 1;
          n400 = n div 146097; n = n mod 146097;
          yr = n400 * 400 + 1;
          n100 = n div 36524; n = n mod 36524;
          n4 = n div 1461; n = n mod 1461;
          n1 = n div 365; n = n mod 365;
          yr = yr + n100 * 100 + n4 * 4 + n1
      in if n1 = 4 \<or> n100 = 4 then (yr - 1, 12, 31)
         else
           let leapyear = (n1 = 3 \<and> (n4 \<noteq> 24 \<or> n100 = 3));
               mo = (n + 50) div 32;
               preceding = DAYS_BEFORE_MONTH ! nat mo + (if 2 < mo \<and> leapyear then 1 else 0)
           in if n < preceding
              then
                let mo' = mo - 1;
                    preceding' = preceding
                       - (DAYS_IN_MONTH ! nat mo' + (if mo' = 2 \<and> leapyear then 1 else 0))
                in (yr, mo', n - preceding' + 1)
              else (yr, mo, n - preceding + 1))"

text \<open>
  The month search that ends \<open>ord2ymd\<close>, on its own: from the leap flag, the day of the
  year counted from zero and the first guess of the month, the month and the day.
\<close>

definition month_from :: "bool \<Rightarrow> int \<Rightarrow> int \<Rightarrow> int \<times> int" where
  "month_from leapyear n mo =
     (let preceding = DAYS_BEFORE_MONTH ! nat mo + (if 2 < mo \<and> leapyear then 1 else 0)
      in if n < preceding
         then
           let mo' = mo - 1;
               preceding' = preceding
                  - (DAYS_IN_MONTH ! nat mo' + (if mo' = 2 \<and> leapyear then 1 else 0))
           in (mo', n - preceding' + 1)
         else (mo, n - preceding + 1))"

definition MAXORDINAL :: int where
  "MAXORDINAL = 3652059"

text \<open>
  \<^verbatim>\<open>datetime + timedelta\<close>, the duration given in microseconds: the sum is normalised
  into days, seconds and microseconds, and a day outside years 1 to 9999 is an
  \<^verbatim>\<open>OverflowError\<close>.
\<close>

definition datetime_add :: "datetime \<Rightarrow> int \<Rightarrow> error + datetime" where
  "datetime_add dt delta =
     (let total = (((ymd2ord (year dt) (month dt) (day dt) * 24 + hour dt) * 60
                      + minute dt) * 60 + second dt) * 1000000 + microsecond dt + delta;
          days = total div 86400000000;
          secs = (total mod 86400000000) div 1000000;
          us = (total mod 86400000000) mod 1000000;
          h = secs div 3600; rem = secs mod 3600;
          mi = rem div 60; s = rem mod 60
      in if 0 < days \<and> days \<le> MAXORDINAL
         then (case ord2ymd days of (yr, mo, d) \<Rightarrow>
                 Inr (dt\<lparr>year := yr, month := mo, day := d, hour := h, minute := mi,
                         second := s, microsecond := us\<rparr>))
         else Inl OverflowError)"

text \<open>
  \<^verbatim>\<open>dt.astimezone(timezone.utc)\<close>. A naive timestamp is taken in the system's local
  zone, whose offset is the parameter \<open>local\<close>. Conversion to the zone the timestamp
  already carries returns the timestamp itself; otherwise the offset is subtracted, the
  target zone attached, and \<^verbatim>\<open>timezone.utc.fromutc\<close> adds its zero offset.
\<close>

definition astimezone_utc :: "(datetime \<Rightarrow> int) \<Rightarrow> datetime \<Rightarrow> error + datetime" where
  "astimezone_utc local dt =
     (let myoffset = (case tzinfo dt of None \<Rightarrow> local dt | Some z \<Rightarrow> utcoffset z)
      in if tzinfo dt = Some UTC then Inr dt
         else (case datetime_add dt (- myoffset) of
                 Inl e \<Rightarrow> Inl e
               | Inr u \<Rightarrow> datetime_add (u\<lparr>tzinfo := Some UTC\<rparr>) (utcoffset UTC)))"

text \<open>
  The fields a \<^verbatim>\<open>datetime\<close> constructor accepts: a date of the proleptic Gregorian
  calendar in the years 1 to 9999 and a time of day.
\<close>

definition days_in_month :: "int \<Rightarrow> int \<Rightarrow> int" where
  "days_in_month yr mo = (if mo = 2 \<and> is_leap yr then 29 else DAYS_IN_MONTH ! nat mo)"

definition valid_datetime :: "datetime \<Rightarrow> bool" where
  "valid_datetime dt =
     (1 \<le> year dt \<and> year dt \<le> 9999 \<and> 1 \<le> month dt \<and> month dt \<le> 12
      \<and> 1 \<le> day dt \<and> day dt \<le> days_in_month (year dt) (month dt)
      \<and> 0 \<le> hour dt \<and> hour dt < 24 \<and> 0 \<le> minute dt \<and> minute dt < 60
      \<and> 0 \<le> second dt \<and> second dt < 60
      \<and> 0 \<le> microsecond dt \<and> microsecond dt < 1000000)"

subsection \<open>Catalog, observer and simulator state\<close>

record star_data =
  hip :: int
  ra_hours :: real
  dec_degrees :: real
  magnitude :: real

record topos =
  latitude_degrees :: real
  longitude_degrees :: real
  elevation_m :: real

text \<open>
  The attributes of a \<^verbatim>\<open>SkySimulator\<close>. The ephemeris file, the Earth body and the
  time scale are objects of the astronomy library; their types are parameters. The
  observer location is the vector sum \<^verbatim>\<open>earth + Topos(...)\<close>, kept as the pair.
\<close>

record ('eph, 'body, 'ts) sky_simulator =
  load_planets :: 'eph
  earth :: 'body
  ts :: 'ts
  stars_df :: "star_data list option"
  observer_location :: "('body \<times> topos) option"
  observer_coords :: "(real \<times> real) option"

text \<open>
  What the program calls outside itself: the system's local zone, the time scale's
  \<^verbatim>\<open>utc\<close> constructor, the position of the observer at a time, and the apparent altitude
  and azimuth in degrees of a catalog star for that observer
  (\<^verbatim>\<open>observer.observe(Star.from_dataframe(row)).apparent().altaz()\<close>). The last two may
  raise, which is the result \<open>None\<close>; the simulator lets the exception pass, as the
  error \<open>ProviderError\<close>.
\<close>

record ('body, 'ts, 'time, 'obs) provider =
  local_utcoffset :: "datetime \<Rightarrow> int"
  ts_utc :: "'ts \<Rightarrow> int \<times> int \<times> int \<times> int \<times> int \<times> int \<Rightarrow> 'time"
  location_at :: "'body \<times> topos \<Rightarrow> 'time \<Rightarrow> 'obs option"
  altaz :: "'obs \<Rightarrow> star_data \<Rightarrow> (real \<times> real) option"

definition init :: "'eph \<Rightarrow> 'body \<Rightarrow> 'ts \<Rightarrow> ('eph, 'body, 'ts) sky_simulator" where
  "init planets e t =
     \<lparr>load_planets = planets, earth = e, ts = t, stars_df = None,
      observer_location = None, observer_coords = None\<rparr>"

text \<open>\<^verbatim>\<open>load_star_catalog\<close>: \<open>df\<close> is the Hipparcos table as downloaded.\<close>

definition load_star_catalog ::
  "('eph, 'body, 'ts, 'more) sky_simulator_scheme \<Rightarrow> star_data list \<Rightarrow> real
     \<Rightarrow> ('eph, 'body, 'ts, 'more) sky_simulator_scheme" where
  "load_star_catalog self df max_magnitude =
     self\<lparr>stars_df := Some (filter (\<lambda>row. magnitude row \<le> max_magnitude) df)\<rparr>"

definition set_observer_location ::
  "('eph, 'body, 'ts, 'more) sky_simulator_scheme \<Rightarrow> real \<Rightarrow> real \<Rightarrow> real
     \<Rightarrow> ('eph, 'body, 'ts, 'more) sky_simulator_scheme" where
  "set_observer_location self latitude longitude elevation =
     (let self = self\<lparr>observer_location :=
                   Some (earth self, \<lparr>latitude_degrees = latitude,
                                      longitude_degrees = longitude,
                                      elevation_m = elevation\<rparr>)\<rparr>
      in self\<lparr>observer_coords := Some (latitude, longitude)\<rparr>)"

subsection \<open>Rendering attributes\<close>

text \<open>
  NumPy computes on \<^verbatim>\<open>float64\<close> arrays with IEEE 754 binary64 arithmetic in its default
  rounding mode: the result of an operation is the exact result rounded to the nearest
  float, a tie going to the float whose last significand bit is zero, and a result whose
  rounded magnitude reaches \<open>2 ^ 1024\<close> is an infinity.

  \<open>round_half_even\<close> rounds a real number to the nearest integer, a tie to the even one.
\<close>

definition round_half_even :: "real \<Rightarrow> int" where
  "round_half_even r =
     (let f = \<lfloor>r\<rfloor>; d = r - of_int f
      in if d < 1 / 2 then f else if 1 / 2 < d then f + 1 else if even f then f else f + 1)"

text \<open>
  The exponent of a magnitude: the largest \<open>e\<close> from 1023 down to \<open>- 1021\<close> with
  \<open>2 powi e \<le> a\<close>, and \<open>- 1022\<close> when there is none (the subnormal floats have the
  spacing of the lowest binade).
\<close>

fun exponent_from :: "nat \<Rightarrow> int \<Rightarrow> real \<Rightarrow> int" where
  "exponent_from 0 e a = e"
| "exponent_from (Suc n) e a = (if 2 powi e \<le> a then e else exponent_from n (e - 1) a)"

definition float_exponent :: "real \<Rightarrow> int" where
  "float_exponent a = exponent_from 2045 1023 a"

text \<open>A float64 value that is a number: finite, or one of the two infinities.\<close>

datatype float64 = Finite real | PosInf | NegInf

definition float_overflow :: real where
  "float_overflow = 2 powi 1024"

text \<open>
  Rounding a magnitude to the floats of its binade, which are the multiples of
  \<open>2 powi (e - 52)\<close>, and rounding a real number to float64.
\<close>

definition round_magnitude :: "real \<Rightarrow> real" where
  "round_magnitude a =
     (let q = 2 powi (float_exponent a - 52) in of_int (round_half_even (a / q)) * q)"

definition round64 :: "real \<Rightarrow> float64" where
  "round64 x =
     (let r = round_magnitude \<bar>x\<bar>
      in if float_overflow \<le> r then (if 0 < x then PosInf else NegInf)
         else Finite (if 0 < x then r else - r))"

text \<open>
  The three operations of the size computation on one element of the array: \<open>c - m\<close> for a
  float \<open>m\<close>, \<open>c * s\<close> for a positive number \<open>c\<close>, and \<open>s + c\<close>. An infinity stays that
  infinity under the last two.
\<close>

definition rsub :: "real \<Rightarrow> real \<Rightarrow> float64" where
  "rsub c m = round64 (c - m)"

definition scale :: "real \<Rightarrow> float64 \<Rightarrow> float64" where
  "scale c s = (case s of Finite v \<Rightarrow> round64 (c * v) | PosInf \<Rightarrow> PosInf | NegInf \<Rightarrow> NegInf)"

definition shift :: "float64 \<Rightarrow> real \<Rightarrow> float64" where
  "shift s c = (case s of Finite v \<Rightarrow> round64 (v + c) | PosInf \<Rightarrow> PosInf | NegInf \<Rightarrow> NegInf)"

text \<open>
  \<^verbatim>\<open>np.clip(a, a_min, a_max)\<close> on one element, which is
  \<^verbatim>\<open>minimum(a_max, maximum(a, a_min))\<close>; the bounds are finite, and so is the result.
\<close>

definition clip :: "float64 \<Rightarrow> real \<Rightarrow> real \<Rightarrow> real" where
  "clip s a_min a_max =
     (case s of Finite v \<Rightarrow> min a_max (max v a_min) | PosInf \<Rightarrow> a_max
      | NegInf \<Rightarrow> min a_max a_min)"

text \<open>The two vectorised lines that turn magnitudes into point sizes.\<close>

definition point_sizes :: "real list \<Rightarrow> real list" where
  "point_sizes magnitudes =
     (let sizes = map (\<lambda>m. shift (scale 20 (rsub 5 m)) 1) magnitudes
      in map (\<lambda>s. clip s 1 50) sizes)"

text \<open>The colour chain of the GUI variant.\<close>

definition star_color :: "real \<Rightarrow> string" where
  "star_color mag =
     (if mag < 1 then ''#87CEEB''
      else if mag < 2 then ''white''
      else if mag < 3 then ''#FFE4B5''
      else if mag < 4 then ''#FFA500''
      else ''#FF6B6B'')"

subsection \<open>Star positions\<close>

text \<open>Time normalisation: a naive timestamp gets the UTC zone, then conversion to UTC.\<close>

definition to_utc :: "('body, 'ts, 'time, 'obs) provider \<Rightarrow> datetime \<Rightarrow> error + datetime" where
  "to_utc P time =
     (let time = (if tzinfo time = None then time\<lparr>tzinfo := Some UTC\<rparr> else time)
      in astimezone_utc (local_utcoffset P) time)"

definition utc_fields :: "datetime \<Rightarrow> int \<times> int \<times> int \<times> int \<times> int \<times> int" where
  "utc_fields utc_time =
     (year utc_time, month utc_time, day utc_time,
      hour utc_time, minute utc_time, second utc_time)"

text \<open>The loop over the catalog rows of \<^verbatim>\<open>sky_simulator.py\<close>.\<close>

fun star_loop ::
  "('body, 'ts, 'time, 'obs) provider \<Rightarrow> 'obs \<Rightarrow> star_data list
     \<Rightarrow> (real \<times> real) list \<times> real list \<Rightarrow> error + (real \<times> real) list \<times> real list" where
  "star_loop P observer [] acc = Inr acc"
| "star_loop P observer (row # rows) (star_positions, star_magnitudes) =
     (case altaz P observer row of
        None \<Rightarrow> Inl ProviderError
      | Some (alt, az) \<Rightarrow>
          if 0 < alt
          then star_loop P observer rows
                 (star_positions @ [(az, alt)], star_magnitudes @ [magnitude row])
          else star_loop P observer rows (star_positions, star_magnitudes))"

text \<open>The same loop in \<^verbatim>\<open>sky_simulator_gui.py\<close>, which also collects a colour.\<close>

fun gui_star_loop ::
  "('body, 'ts, 'time, 'obs) provider \<Rightarrow> 'obs \<Rightarrow> star_data list
     \<Rightarrow> (real \<times> real) list \<times> real list \<times> string list
     \<Rightarrow> error + (real \<times> real) list \<times> real list \<times> string list" where
  "gui_star_loop P observer [] acc = Inr acc"
| "gui_star_loop P observer (row # rows) (star_positions, star_magnitudes, star_colors) =
     (case altaz P observer row of
        None \<Rightarrow> Inl ProviderError
      | Some (alt, az) \<Rightarrow>
          if 0 < alt
          then gui_star_loop P observer rows
                 (star_positions @ [(az, alt)], star_magnitudes @ [magnitude row],
                  star_colors @ [star_color (magnitude row)])
          else gui_star_loop P observer rows (star_positions, star_magnitudes, star_colors))"

text \<open>
  \<^verbatim>\<open>get_star_positions\<close> of \<^verbatim>\<open>sky_simulator.py\<close>: azimuths, altitudes and sizes. The
  argument \<open>timezone\<close> is accepted and never read.
\<close>

definition get_star_positions ::
  "('body, 'ts, 'time, 'obs) provider \<Rightarrow> ('eph, 'body, 'ts, 'more) sky_simulator_scheme
     \<Rightarrow> datetime \<Rightarrow> string \<Rightarrow> error + real list \<times> real list \<times> real list" where
  "get_star_positions P self time timezone =
     (case (stars_df self, observer_location self) of
        (Some df, Some loc) \<Rightarrow>
          (case to_utc P time of
             Inl e \<Rightarrow> Inl e
           | Inr utc_time \<Rightarrow>
               (case location_at P loc (ts_utc P (ts self) (utc_fields utc_time)) of
                  None \<Rightarrow> Inl ProviderError
                | Some observer \<Rightarrow>
                    (case star_loop P observer df ([], []) of
                       Inl e \<Rightarrow> Inl e
                     | Inr (star_positions, star_magnitudes) \<Rightarrow>
                         if star_positions = [] then Inr ([], [], [])
                         else Inr (map fst star_positions, map snd star_positions,
                                   point_sizes star_magnitudes))))
      | _ \<Rightarrow> Inl ValueError)"

text \<open>\<^verbatim>\<open>get_star_positions\<close> of \<^verbatim>\<open>sky_simulator_gui.py\<close>: also the colours.\<close>

definition gui_get_star_positions ::
  "('body, 'ts, 'time, 'obs) provider \<Rightarrow> ('eph, 'body, 'ts, 'more) sky_simulator_scheme
     \<Rightarrow> datetime \<Rightarrow> string
     \<Rightarrow> error + real list \<times> real list \<times> real list \<times> string list" where
  "gui_get_star_positions P self time timezone =
     (case (stars_df self, observer_location self) of
        (Some df, Some loc) \<Rightarrow>
          (case to_utc P time of
             Inl e \<Rightarrow> Inl e
           | Inr utc_time \<Rightarrow>
               (case location_at P loc (ts_utc P (ts self) (utc_fields utc_time)) of
                  None \<Rightarrow> Inl ProviderError
                | Some observer \<Rightarrow>
                    (case gui_star_loop P observer df ([], [], []) of
                       Inl e \<Rightarrow> Inl e
                     | Inr (star_positions, star_magnitudes, star_colors) \<Rightarrow>
                         if star_positions = [] then Inr ([], [], [], [])
                         else Inr (map fst star_positions, map snd star_positions,
                                   point_sizes star_magnitudes, star_colors))))
      | _ \<Rightarrow> Inl ValueError)"

subsection \<open>Notions used to state the properties\<close>

text \<open>
  A catalog row is above the horizon for an observer when the provider yields an altitude
  greater than zero for it; the visible rows are those rows, in catalog order.
\<close>

definition above_horizon :: "('body, 'ts, 'time, 'obs) provider \<Rightarrow> 'obs \<Rightarrow> star_data \<Rightarrow> bool" where
  "above_horizon P observer row =
     (case altaz P observer row of None \<Rightarrow> False | Some (alt, az) \<Rightarrow> 0 < alt)"

definition visible_rows ::
  "('body, 'ts, 'time, 'obs) provider \<Rightarrow> 'obs \<Rightarrow> star_data list \<Rightarrow> star_data list" where
  "visible_rows P observer df = filter (above_horizon P observer) df"

definition position_of ::
  "('body, 'ts, 'time, 'obs) provider \<Rightarrow> 'obs \<Rightarrow> star_data \<Rightarrow> real \<times> real" where
  "position_of P observer row =
     (case altaz P observer row of None \<Rightarrow> (0, 0) | Some (alt, az) \<Rightarrow> (az, alt))"

text \<open>The clamp of the specification: a value below the range, above it, or inside.\<close>

definition clamp :: "real \<Rightarrow> real \<Rightarrow> real \<Rightarrow> real" where
  "clamp x lo hi = (if x < lo then lo else if hi < x then hi else x)"

text \<open>
  A real number is representable when rounding leaves it as it is. The values that
  \<open>round64\<close> produces are finite floats below the overflow threshold or infinities; the
  order of float64 values is that of the extended reals, read off by \<open>float_value\<close>.
\<close>

definition representable :: "real \<Rightarrow> bool" where
  "representable x = (round64 x = Finite x)"

definition proper :: "float64 \<Rightarrow> bool" where
  "proper s = (case s of Finite v \<Rightarrow> \<bar>v\<bar> < float_overflow | PosInf \<Rightarrow> True | NegInf \<Rightarrow> True)"

definition float_value :: "float64 \<Rightarrow> real" where
  "float_value s =
     (case s of Finite v \<Rightarrow> v | PosInf \<Rightarrow> float_overflow | NegInf \<Rightarrow> - float_overflow)"

subsection \<open>An example run\<close>

text \<open>
  A small provider for concrete runs: the observer is the hour of the UTC time, the altitude
  of a row is its declination, lowered by ninety degrees at hour 12, and the azimuth is
  fifteen times its right ascension. The local zone is one hour east of UTC. The magnitude
  of the third row of the catalog is the float that the literal \<^verbatim>\<open>4.2\<close> denotes, and the
  magnitude of the row of the second catalog is the float of the literal \<^verbatim>\<open>3.1\<close>.
\<close>

definition demo_provider :: "(unit, unit, int \<times> int \<times> int \<times> int \<times> int \<times> int, int) provider" where
  "demo_provider =
     \<lparr>local_utcoffset = (\<lambda>dt. 3600000000),
      ts_utc = (\<lambda>timescale f. f),
      location_at = (\<lambda>loc (yr, mo, d, h, mi, s). Some h),
      altaz = (\<lambda>h row. Some (if h = 12 then dec_degrees row - 90 else dec_degrees row,
                               15 * ra_hours row))\<rparr>"

definition demo_catalog :: "star_data list" where
  "demo_catalog =
     [\<lparr>hip = 1, ra_hours = 1, dec_degrees = 10, magnitude = 1 / 2\<rparr>,
      \<lparr>hip = 2, ra_hours = 2, dec_degrees = - 5, magnitude = 2\<rparr>,
      \<lparr>hip = 3, ra_hours = 3, dec_degrees = 30, magnitude = 4728779608739021 / 1125899906842624\<rparr>,
      \<lparr>hip = 4, ra_hours = 4, dec_degrees = 0, magnitude = 1\<rparr>,
      \<lparr>hip = 5, ra_hours = 5, dec_degrees = 20, magnitude = 7\<rparr>]"

definition demo_simulator :: "(unit, unit, unit) sky_simulator" where
  "demo_simulator =
     set_observer_location (load_star_catalog (init () () ()) demo_catalog 6) 52 13 34"

definition demo_rounding_catalog :: "star_data list" where
  "demo_rounding_catalog =
     [\<lparr>hip = 6, ra_hours = 2, dec_degrees = 20, magnitude = 6980579422424269 / 2251799813685248\<rparr>]"

definition demo_rounding_simulator :: "(unit, unit, unit) sky_simulator" where
  "demo_rounding_simulator =
     set_observer_location (load_star_catalog (init () () ()) demo_rounding_catalog 6) 52 13 34"

definition demo_time :: datetime where
  "demo_time = \<lparr>year = 2024, month = 2, day = 29, hour = 22, minute = 0, second = 0,
                 microsecond = 0, tzinfo = None\<rparr>"

definition demo_noon :: datetime where
  "demo_noon = \<lparr>year = 2024, month = 2, day = 29, hour = 12, minute = 0, second = 0,
                 microsecond = 0, tzinfo = Some UTC\<rparr>"

definition demo_zoned :: datetime where
  "demo_zoned = \<lparr>year = 2024, month = 3, day = 1, hour = 0, minute = 0, second = 0,
                  microsecond = 250000, tzinfo = Some (Fixed 7200000000)\<rparr>"

definition demo_zoned_utc :: datetime where
  "demo_zoned_utc = \<lparr>year = 2024, month = 2, day = 29, hour = 22, minute = 0, second = 0,
                  microsecond = 250000, tzinfo = Some UTC\<rparr>"

section \<open>Auxiliary facts\<close>

subsection \<open>Rounding to an integer\<close>

lemma round_half_even_of_int: "round_half_even (of_int n) = n"
  by (simp add: round_half_even_def)

lemma round_half_even_bounds:
  "\<lfloor>r\<rfloor> \<le> round_half_even r" "round_half_even r \<le> \<lfloor>r\<rfloor> + 1"
  by (simp_all add: round_half_even_def Let_def)

lemma round_half_even_mono:
  assumes "r \<le> s"
  shows "round_half_even r \<le> round_half_even s"
proof (cases "\<lfloor>r\<rfloor> = \<lfloor>s\<rfloor>")
  case True
  with assms show ?thesis by (auto simp: round_half_even_def Let_def)
next
  case False
  with assms have "\<lfloor>r\<rfloor> < \<lfloor>s\<rfloor>" by (simp add: floor_mono order_neq_le_trans)
  with round_half_even_bounds(2)[of r] round_half_even_bounds(1)[of s] show ?thesis by linarith
qed

lemma round_half_even_error: "\<bar>of_int (round_half_even r) - r\<bar> \<le> 1 / 2"
  by (auto simp: round_half_even_def Let_def abs_le_iff)

subsection \<open>The exponent\<close>

lemma exponent_from_range: "e - int n \<le> exponent_from n e a \<and> exponent_from n e a \<le> e"
proof (induction n arbitrary: e)
  case 0
  show ?case by simp
next
  case (Suc n)
  from Suc[of "e - 1"] show ?case by simp
qed

lemma exponent_from_lower:
  "e - int n < exponent_from n e a \<Longrightarrow> 2 powi (exponent_from n e a) \<le> a"
  by (induction n arbitrary: e) (auto split: if_splits)

lemma exponent_from_upper:
  "exponent_from n e a < e \<Longrightarrow> a < 2 powi (exponent_from n e a + 1)"
proof (induction n arbitrary: e)
  case 0
  then show ?case by simp
next
  case (Suc n)
  from Suc.prems have no: "\<not> 2 powi e \<le> a" by (auto split: if_splits)
  then have eq: "exponent_from (Suc n) e a = exponent_from n (e - 1) a" by simp
  show ?case
  proof (cases "exponent_from n (e - 1) a < e - 1")
    case True
    from Suc.IH[OF True] eq show ?thesis by simp
  next
    case False
    with exponent_from_range[of "e - 1" n a] have "exponent_from n (e - 1) a = e - 1" by simp
    with eq no show ?thesis by simp
  qed
qed

lemma float_exponent_range: "- 1022 \<le> float_exponent a" "float_exponent a \<le> 1023"
  using exponent_from_range[of 1023 2045 a] by (simp_all add: float_exponent_def)

lemma float_exponent_lower: "- 1022 < float_exponent a \<Longrightarrow> 2 powi (float_exponent a) \<le> a"
  using exponent_from_lower[of 1023 2045 a] by (simp add: float_exponent_def)

lemma float_exponent_upper: "float_exponent a < 1023 \<Longrightarrow> a < 2 powi (float_exponent a + 1)"
  using exponent_from_upper[of 2045 1023 a] by (simp add: float_exponent_def)

lemma pow2_mono: "k \<le> l \<Longrightarrow> (2 :: real) powi k \<le> 2 powi l"
  by (rule power_int_increasing) simp_all

lemma pow2_pos: "0 < (2 :: real) powi k"
  by (simp add: zero_less_power_int)

lemma float_exponent_eq:
  assumes "- 1022 \<le> k" "k \<le> 1023"
    and lo: "2 powi k \<le> a \<or> k = - 1022" and hi: "a < 2 powi (k + 1) \<or> k = 1023"
  shows "float_exponent a = k"
proof (rule antisym)
  show "float_exponent a \<le> k"
  proof (rule ccontr)
    assume "\<not> float_exponent a \<le> k"
    then have g: "k + 1 \<le> float_exponent a" by simp
    with assms(1) have "2 powi (float_exponent a) \<le> a"
      by (intro float_exponent_lower) simp
    moreover from g float_exponent_range(2)[of a] hi have "a < 2 powi (k + 1)" by auto
    moreover from g have "(2 :: real) powi (k + 1) \<le> 2 powi (float_exponent a)"
      by (rule pow2_mono)
    ultimately show False by simp
  qed
  show "k \<le> float_exponent a"
  proof (rule ccontr)
    assume "\<not> k \<le> float_exponent a"
    then have g: "float_exponent a + 1 \<le> k" by simp
    with assms(2) have "a < 2 powi (float_exponent a + 1)"
      by (intro float_exponent_upper) simp
    moreover from g float_exponent_range(1)[of a] lo have "2 powi k \<le> a" by auto
    moreover from g have "(2 :: real) powi (float_exponent a + 1) \<le> 2 powi k"
      by (rule pow2_mono)
    ultimately show False by simp
  qed
qed

lemma float_exponent_mono:
  assumes "a \<le> b"
  shows "float_exponent a \<le> float_exponent b"
proof (rule ccontr)
  assume "\<not> float_exponent a \<le> float_exponent b"
  then have g: "float_exponent b + 1 \<le> float_exponent a" by simp
  with float_exponent_range(1)[of b] have "2 powi (float_exponent a) \<le> a"
    by (intro float_exponent_lower) simp
  moreover from g float_exponent_range(2)[of a] have "b < 2 powi (float_exponent b + 1)"
    by (intro float_exponent_upper) simp
  moreover from g have "(2 :: real) powi (float_exponent b + 1) \<le> 2 powi (float_exponent a)"
    by (rule pow2_mono)
  ultimately show False using assms by simp
qed


subsection \<open>Rounding is monotone\<close>

lemma quantum_pos: "0 < (2 :: real) powi (float_exponent a - 52)"
  by (rule pow2_pos)

lemma round_magnitude_nonneg:
  assumes "0 \<le> a"
  shows "0 \<le> round_magnitude a"
proof -
  have "0 \<le> a / 2 powi (float_exponent a - 52)" using assms quantum_pos[of a] by simp
  then have "round_half_even 0 \<le> round_half_even (a / 2 powi (float_exponent a - 52))"
    by (rule round_half_even_mono)
  then have "0 \<le> round_half_even (a / 2 powi (float_exponent a - 52))"
    using round_half_even_of_int[of 0] by simp
  then show ?thesis using quantum_pos[of a] by (simp add: round_magnitude_def Let_def)
qed

lemma pow2_split: "(2 :: real) powi (e + k) = 2 powi e * 2 powi k"
  by (simp add: power_int_add)

lemma float_overflow_pos: "0 < float_overflow"
  by (simp only: float_overflow_def pow2_pos)

lemma binade_quanta:
  fixes q :: real
  assumes "q = 2 powi (e - 52)"
  shows "2 powi e = of_int (2 ^ 52) * q" and "2 powi (e + 1) = of_int (2 ^ 53) * q"
proof -
  have "(2 :: real) powi e = 2 powi ((e - 52) + 52)"
    by (rule arg_cong[where f = "\<lambda>k. 2 powi k"]) simp
  also have "\<dots> = 2 powi (e - 52) * 2 powi 52" by (rule pow2_split)
  finally show "2 powi e = of_int (2 ^ 52) * q" by (simp add: assms)
  have "(2 :: real) powi (e + 1) = 2 powi ((e - 52) + 53)"
    by (rule arg_cong[where f = "\<lambda>k. 2 powi k"]) simp
  also have "\<dots> = 2 powi (e - 52) * 2 powi 53" by (rule pow2_split)
  finally show "2 powi (e + 1) = of_int (2 ^ 53) * q" by (simp add: assms)
qed

lemma round_magnitude_le_next:
  assumes "a < 2 powi (float_exponent a + 1)"
  shows "round_magnitude a \<le> 2 powi (float_exponent a + 1)"
proof -
  define e where "e = float_exponent a"
  define q :: real where "q = 2 powi (e - 52)"
  have q: "0 < q" by (simp add: q_def pow2_pos)
  note next_q = binade_quanta(2)[OF q_def]
  from assms have "a < of_int (2 ^ 53) * q" by (simp only: e_def[symmetric] next_q)
  then have "a / q \<le> of_int (2 ^ 53)" using q by (simp add: field_simps)
  then have "round_half_even (a / q) \<le> round_half_even (of_int (2 ^ 53))"
    by (rule round_half_even_mono)
  then have "round_half_even (a / q) \<le> 2 ^ 53" by (simp only: round_half_even_of_int)
  then have "(of_int (round_half_even (a / q)) :: real) \<le> of_int (2 ^ 53)"
    by (simp only: of_int_le_iff)
  then have "of_int (round_half_even (a / q)) * q \<le> of_int (2 ^ 53) * q"
    using q by (simp only: mult_le_cancel_right_pos)
  then show ?thesis
    by (simp only: round_magnitude_def Let_def e_def[symmetric] q_def[symmetric] next_q)
qed

lemma round_magnitude_ge_binade:
  assumes "2 powi (float_exponent a) \<le> a"
  shows "2 powi (float_exponent a) \<le> round_magnitude a"
proof -
  define e where "e = float_exponent a"
  define q :: real where "q = 2 powi (e - 52)"
  have q: "0 < q" by (simp add: q_def pow2_pos)
  note this_q = binade_quanta(1)[OF q_def]
  from assms have "of_int (2 ^ 52) * q \<le> a" by (simp only: e_def[symmetric] this_q)
  then have "of_int (2 ^ 52) \<le> a / q" using q by (simp add: field_simps)
  then have "round_half_even (of_int (2 ^ 52)) \<le> round_half_even (a / q)"
    by (rule round_half_even_mono)
  then have "2 ^ 52 \<le> round_half_even (a / q)" by (simp only: round_half_even_of_int)
  then have "(of_int (2 ^ 52) :: real) \<le> of_int (round_half_even (a / q))"
    by (simp only: of_int_le_iff)
  then have "of_int (2 ^ 52) * q \<le> of_int (round_half_even (a / q)) * q"
    using q by (simp only: mult_le_cancel_right_pos)
  then show ?thesis
    by (simp only: round_magnitude_def Let_def e_def[symmetric] q_def[symmetric] this_q)
qed

lemma round_magnitude_mono:
  assumes "a \<le> b"
  shows "round_magnitude a \<le> round_magnitude b"
proof (cases "float_exponent a = float_exponent b")
  case True
  define q :: real where "q = 2 powi (float_exponent b - 52)"
  have q: "0 < q" by (simp add: q_def pow2_pos)
  from assms q have "a / q \<le> b / q" by (simp add: divide_right_mono)
  then have "round_half_even (a / q) \<le> round_half_even (b / q)"
    by (rule round_half_even_mono)
  then have "of_int (round_half_even (a / q)) * q \<le> of_int (round_half_even (b / q)) * q"
    using q by simp
  then show ?thesis by (simp add: round_magnitude_def Let_def True q_def)
next
  case False
  with float_exponent_mono[OF assms] have lt: "float_exponent a < float_exponent b" by simp
  with float_exponent_range(2)[of b] have "float_exponent a < 1023" by simp
  then have "a < 2 powi (float_exponent a + 1)" by (rule float_exponent_upper)
  then have 1: "round_magnitude a \<le> 2 powi (float_exponent a + 1)"
    by (rule round_magnitude_le_next)
  from lt float_exponent_range(1)[of a] have "- 1022 < float_exponent b" by simp
  then have "2 powi (float_exponent b) \<le> b" by (rule float_exponent_lower)
  then have 2: "2 powi (float_exponent b) \<le> round_magnitude b"
    by (rule round_magnitude_ge_binade)
  from lt have "(2 :: real) powi (float_exponent a + 1) \<le> 2 powi (float_exponent b)"
    by (intro pow2_mono) simp
  with 1 2 show ?thesis by linarith
qed

lemma round_magnitude_zero: "round_magnitude 0 = 0"
  by (simp add: round_magnitude_def round_half_even_def)

lemma float_value_round64:
  "float_value (round64 x) =
     (if 0 < x then min (round_magnitude x) float_overflow
      else - min (round_magnitude (- x)) float_overflow)"
proof -
  consider "0 < x" | "x < 0" | "x = 0" by linarith
  then show ?thesis
  proof cases
    case 1
    then show ?thesis by (simp add: round64_def float_value_def Let_def min_def)
  next
    case 2
    then show ?thesis by (simp add: round64_def float_value_def Let_def min_def)
  next
    case 3
    with float_overflow_pos show ?thesis
      by (simp add: round64_def float_value_def Let_def min_def round_magnitude_zero)
  qed
qed

lemma round64_mono:
  assumes "x \<le> y"
  shows "float_value (round64 x) \<le> float_value (round64 y)"
proof -
  have pos: "0 \<le> min (round_magnitude a) float_overflow" if "0 \<le> a" for a
    using round_magnitude_nonneg[OF that] float_overflow_pos by (simp add: min_def)
  consider "0 < x" | "x \<le> 0" "0 < y" | "y \<le> 0" using assms by linarith
  then show ?thesis
  proof cases
    case 1
    with assms have "0 < y" by simp
    with 1 round_magnitude_mono[OF assms] show ?thesis
      by (simp add: float_value_round64 min_def)
  next
    case 2
    then have "float_value (round64 x) = - min (round_magnitude (- x)) float_overflow"
      and "float_value (round64 y) = min (round_magnitude y) float_overflow"
      by (simp_all add: float_value_round64)
    with 2 pos[of "- x"] pos[of y] show ?thesis by linarith
  next
    case 3
    with assms have x: "x \<le> 0" by simp
    from assms have "- y \<le> - x" by simp
    from round_magnitude_mono[OF this] 3 x show ?thesis
      by (simp add: float_value_round64 min_def)
  qed
qed

lemma round64_proper: "proper (round64 x)"
proof -
  have "0 \<le> round_magnitude \<bar>x\<bar>" by (rule round_magnitude_nonneg) simp
  then have "\<not> float_overflow \<le> round_magnitude \<bar>x\<bar> \<Longrightarrow>
      \<bar>round_magnitude \<bar>x\<bar>\<bar> < float_overflow" by linarith
  then show ?thesis by (auto simp: round64_def proper_def Let_def)
qed

lemma round_magnitude_overflow: "round_magnitude float_overflow = float_overflow"
proof -
  have p: "(2 :: real) powi 1023 \<le> 2 powi 1024" by (rule pow2_mono) simp
  have e: "float_exponent float_overflow = 1023"
    unfolding float_overflow_def by (rule float_exponent_eq) (use p in simp_all)
  define q :: real where "q = 2 powi (1023 - 52)"
  have q: "0 < q" by (simp only: q_def pow2_pos)
  have o: "float_overflow = of_int (2 ^ 53) * q"
    using binade_quanta(2)[OF q_def] by (simp only: float_overflow_def) simp
  have "float_overflow / q = of_int (2 ^ 53)" using q by (simp only: o) simp
  then show ?thesis
    by (simp only: round_magnitude_def Let_def e q_def[symmetric] round_half_even_of_int)
       (simp only: o)
qed

lemma round64_overflow:
  assumes "float_overflow \<le> x"
  shows "round64 x = PosInf"
proof -
  from assms float_overflow_pos have x: "0 < x" by linarith
  have "round_magnitude float_overflow \<le> round_magnitude x"
    using assms by (rule round_magnitude_mono)
  then have "float_overflow \<le> round_magnitude x" by (simp only: round_magnitude_overflow)
  then show ?thesis using x by (simp add: round64_def Let_def)
qed

lemma round64_underflow:
  assumes "x \<le> - float_overflow"
  shows "round64 x = NegInf"
proof -
  from assms float_overflow_pos have x: "x < 0" by linarith
  from assms have "float_overflow \<le> - x" by simp
  then have "round_magnitude float_overflow \<le> round_magnitude (- x)"
    by (rule round_magnitude_mono)
  then have "float_overflow \<le> round_magnitude (- x)" by (simp only: round_magnitude_overflow)
  then show ?thesis using x by (simp add: round64_def Let_def)
qed


subsection \<open>The size pipeline is monotone\<close>

lemma float_value_round64_bounds:
  "- float_overflow \<le> float_value (round64 x)" "float_value (round64 x) \<le> float_overflow"
proof -
  have a: "0 \<le> round_magnitude \<bar>x\<bar>" by (rule round_magnitude_nonneg) simp
  with float_overflow_pos show "- float_overflow \<le> float_value (round64 x)"
    by (auto simp: round64_def float_value_def Let_def)
  from a float_overflow_pos show "float_value (round64 x) \<le> float_overflow"
    by (auto simp: round64_def float_value_def Let_def)
qed

lemma lift_mono:
  fixes f :: "real \<Rightarrow> float64"
  assumes mono: "\<And>x y. x \<le> y \<Longrightarrow> float_value (f x) \<le> float_value (f y)"
    and lo: "\<And>x. - float_overflow \<le> float_value (f x)"
    and hi: "\<And>x. float_value (f x) \<le> float_overflow"
    and "proper s" "proper t" "float_value s \<le> float_value t"
  shows "float_value (case s of Finite v \<Rightarrow> f v | PosInf \<Rightarrow> PosInf | NegInf \<Rightarrow> NegInf)
       \<le> float_value (case t of Finite v \<Rightarrow> f v | PosInf \<Rightarrow> PosInf | NegInf \<Rightarrow> NegInf)"
proof (cases s)
  case (Finite v)
  show ?thesis
  proof (cases t)
    case (Finite w)
    with \<open>s = Finite v\<close> assms(6) have "v \<le> w" by (simp add: float_value_def)
    from mono[OF this] Finite \<open>s = Finite v\<close> show ?thesis by simp
  next
    case PosInf
    with \<open>s = Finite v\<close> hi[of v] show ?thesis by (simp add: float_value_def)
  next
    case NegInf
    with \<open>s = Finite v\<close> assms(4,6) show ?thesis by (simp add: float_value_def proper_def)
  qed
next
  case PosInf
  show ?thesis
  proof (cases t)
    case (Finite w)
    with PosInf assms(5,6) show ?thesis by (simp add: float_value_def proper_def)
  next
    case PosInf
    with \<open>s = PosInf\<close> show ?thesis by simp
  next
    case NegInf
    with PosInf assms(6) float_overflow_pos show ?thesis by (simp add: float_value_def)
  qed
next
  case NegInf
  show ?thesis
  proof (cases t)
    case (Finite w)
    with NegInf lo[of w] show ?thesis by (simp add: float_value_def)
  next
    case PosInf
    with NegInf float_overflow_pos show ?thesis by (simp add: float_value_def)
  next
    case NegInf
    with \<open>s = NegInf\<close> show ?thesis by simp
  qed
qed

lemma scale_mono:
  assumes "0 \<le> c" "proper s" "proper t" "float_value s \<le> float_value t"
  shows "float_value (scale c s) \<le> float_value (scale c t)"
  unfolding scale_def
proof (rule lift_mono[OF _ _ _ assms(2-4)])
  fix x y :: real
  assume "x \<le> y"
  with assms(1) have "c * x \<le> c * y" by (rule mult_left_mono[rotated])
  then show "float_value (round64 (c * x)) \<le> float_value (round64 (c * y))"
    by (rule round64_mono)
qed (rule float_value_round64_bounds)+

lemma shift_mono:
  assumes "proper s" "proper t" "float_value s \<le> float_value t"
  shows "float_value (shift s c) \<le> float_value (shift t c)"
  unfolding shift_def
proof (rule lift_mono[OF _ _ _ assms])
  fix x y :: real
  assume "x \<le> y"
  then have "x + c \<le> y + c" by simp
  then show "float_value (round64 (x + c)) \<le> float_value (round64 (y + c))"
    by (rule round64_mono)
qed (rule float_value_round64_bounds)+

lemma scale_proper: "proper s \<Longrightarrow> proper (scale c s)"
  by (cases s) (simp_all add: scale_def round64_proper)

lemma shift_proper: "proper s \<Longrightarrow> proper (shift s c)"
  by (cases s) (simp_all add: shift_def round64_proper)

lemma clip_mono:
  assumes "proper s" "proper t" "float_value s \<le> float_value t" "lo \<le> hi"
  shows "clip s lo hi \<le> clip t lo hi"
  using assms float_overflow_pos
  by (cases s; cases t) (auto simp: clip_def float_value_def proper_def min_def max_def)

lemma clip_bounds:
  assumes "lo \<le> hi"
  shows "lo \<le> clip s lo hi" and "clip s lo hi \<le> hi"
  using assms by (cases s; simp add: clip_def min_def max_def)+

lemma point_size_antitone:
  assumes "m1 \<le> m2"
  shows "clip (shift (scale 20 (rsub 5 m2)) 1) 1 50 \<le> clip (shift (scale 20 (rsub 5 m1)) 1) 1 50"
proof -
  have "5 - m2 \<le> 5 - m1" using assms by simp
  then have 1: "float_value (rsub 5 m2) \<le> float_value (rsub 5 m1)"
    unfolding rsub_def by (rule round64_mono)
  have p: "proper (rsub 5 m)" for m by (simp add: rsub_def round64_proper)
  have 2: "float_value (scale 20 (rsub 5 m2)) \<le> float_value (scale 20 (rsub 5 m1))"
    by (rule scale_mono[OF _ p p 1]) simp
  have 3: "float_value (shift (scale 20 (rsub 5 m2)) 1)
             \<le> float_value (shift (scale 20 (rsub 5 m1)) 1)"
    by (rule shift_mono[OF scale_proper[OF p] scale_proper[OF p] 2])
  show ?thesis
    by (rule clip_mono[OF shift_proper[OF scale_proper[OF p]]
          shift_proper[OF scale_proper[OF p]] 3]) simp
qed

lemma point_sizes_nth:
  "i < length ms \<Longrightarrow> point_sizes ms ! i = clip (shift (scale 20 (rsub 5 (ms ! i))) 1) 1 50"
  by (simp add: point_sizes_def)

lemma length_point_sizes: "length (point_sizes ms) = length ms"
  by (simp add: point_sizes_def)

subsection \<open>Evaluating a rounding\<close>

lemma round64_normal:
  assumes e: "- 1022 \<le> e" "e < 1023" and lo: "2 powi e \<le> \<bar>x\<bar>" and hi: "\<bar>x\<bar> < 2 powi (e + 1)"
  shows "round64 x =
     Finite (if 0 < x then of_int (round_half_even (\<bar>x\<bar> / 2 powi (e - 52))) * 2 powi (e - 52)
             else - (of_int (round_half_even (\<bar>x\<bar> / 2 powi (e - 52))) * 2 powi (e - 52)))"
proof -
  have ex: "float_exponent \<bar>x\<bar> = e"
    by (rule float_exponent_eq) (use e lo hi in simp_all)
  from hi have "\<bar>x\<bar> < 2 powi (float_exponent \<bar>x\<bar> + 1)" by (simp only: ex)
  then have "round_magnitude \<bar>x\<bar> \<le> 2 powi (float_exponent \<bar>x\<bar> + 1)"
    by (rule round_magnitude_le_next)
  then have "round_magnitude \<bar>x\<bar> \<le> 2 powi (e + 1)" by (simp only: ex)
  also from e have "(2 :: real) powi (e + 1) \<le> 2 powi 1023" by (intro pow2_mono) simp
  also have "(2 :: real) powi 1023 < 2 powi 1024"
    by (rule power_int_strict_increasing) simp_all
  finally have "\<not> float_overflow \<le> round_magnitude \<bar>x\<bar>" by (simp add: float_overflow_def)
  moreover have "round_magnitude \<bar>x\<bar>
      = of_int (round_half_even (\<bar>x\<bar> / 2 powi (e - 52))) * 2 powi (e - 52)"
    by (simp only: round_magnitude_def Let_def ex)
  ultimately show ?thesis by (simp only: round64_def Let_def if_False)
qed

lemma round64_zero: "round64 0 = Finite 0"
  using float_overflow_pos by (simp add: round64_def Let_def round_magnitude_zero)

lemma example_roundings:
  "round64 (9 / 2) = Finite (9 / 2)" "round64 90 = Finite 90" "round64 91 = Finite 91"
  "round64 (3 / 4) = Finite (3 / 4)" "round64 15 = Finite 15" "round64 16 = Finite 16"
  by (simp add: round64_normal[where e = 2] round_half_even_def,
      simp add: round64_normal[where e = 6] round_half_even_def,
      simp add: round64_normal[where e = 6] round_half_even_def,
      simp add: round64_normal[where e = "- 1"] round_half_even_def,
      simp add: round64_normal[where e = 3] round_half_even_def,
      simp add: round64_normal[where e = 4] round_half_even_def)

lemma example_sizes: "point_sizes [1 / 2, 17 / 4] = [50, 16]"
  by (simp add: point_sizes_def rsub_def scale_def shift_def clip_def example_roundings)


lemma float_roundings:
  "round64 (900719925474099 / 1125899906842624) = Finite (900719925474099 / 1125899906842624)"
  "round64 (4503599627370495 / 281474976710656) = Finite (4503599627370495 / 281474976710656)"
  "round64 (4785074604081151 / 281474976710656) = Finite (4785074604081151 / 281474976710656)"
  "round64 (4278419646001971 / 2251799813685248) = Finite (4278419646001971 / 2251799813685248)"
  "round64 (21392098230009855 / 562949953421312) = Finite 38"
  "round64 39 = Finite 39"
  by (simp add: round64_normal[where e = "- 1"] round_half_even_def,
      simp add: round64_normal[where e = 3] round_half_even_def,
      simp add: round64_normal[where e = 4] round_half_even_def,
      simp add: round64_normal[where e = 0] round_half_even_def,
      simp add: round64_normal[where e = 5] round_half_even_def,
      simp add: round64_normal[where e = 5] round_half_even_def)

lemma float_sizes:
  "point_sizes [4728779608739021 / 1125899906842624, 6980579422424269 / 2251799813685248]
     = [4785074604081151 / 281474976710656, 39]"
  by (simp add: point_sizes_def rsub_def scale_def shift_def clip_def float_roundings)

subsection \<open>The rounding error\<close>
lemma round64_error:
  assumes k: "- 1022 \<le> k" "k \<le> 1022" and x: "\<bar>x\<bar> \<le> 2 powi k"
  obtains v where "round64 x = Finite v" and "\<bar>v - x\<bar> \<le> 2 powi (k - 53)"
proof -
  define a where "a = \<bar>x\<bar>"
  define e where "e = float_exponent a"
  define q :: real where "q = 2 powi (e - 52)"
  have q: "0 < q" by (simp add: q_def pow2_pos)
  have ek: "e \<le> k"
  proof (rule ccontr)
    assume "\<not> e \<le> k"
    then have g: "k + 1 \<le> e" by simp
    with k(1) have "2 powi e \<le> a" unfolding e_def by (intro float_exponent_lower) simp
    moreover from g have "(2 :: real) powi (k + 1) \<le> 2 powi e" by (rule pow2_mono)
    moreover have "(2 :: real) powi k < 2 powi (k + 1)"
      by (rule power_int_strict_increasing) simp_all
    ultimately show False using x by (simp add: a_def)
  qed
  then have qk: "q \<le> 2 powi (k - 52)" unfolding q_def by (intro pow2_mono) simp
  have half: "(2 :: real) powi (k - 52) = 2 * 2 powi (k - 53)"
  proof -
    have "(2 :: real) powi (k - 52) = 2 powi ((k - 53) + 1)"
      by (rule arg_cong[where f = "\<lambda>k. 2 powi k"]) simp
    also have "\<dots> = 2 powi (k - 53) * 2 powi 1" by (rule pow2_split)
    finally show ?thesis by simp
  qed
  define n where "n = round_half_even (a / q)"
  have rm: "round_magnitude a = of_int n * q"
    by (simp only: round_magnitude_def Let_def e_def[symmetric] q_def[symmetric] n_def)
  have "\<bar>of_int n - a / q\<bar> \<le> 1 / 2" unfolding n_def by (rule round_half_even_error)
  then have "\<bar>of_int n - a / q\<bar> * q \<le> 1 / 2 * q" using q by (simp only: mult_le_cancel_right_pos)
  moreover have "\<bar>of_int n - a / q\<bar> * q = \<bar>of_int n * q - a\<bar>"
  proof -
    have "\<bar>of_int n - a / q\<bar> * q = \<bar>(of_int n - a / q) * q\<bar>"
      using q by (simp add: abs_mult)
    also have "(of_int n - a / q) * q = of_int n * q - a" using q by (simp add: field_simps)
    finally show ?thesis .
  qed
  ultimately have err: "\<bar>of_int n * q - a\<bar> \<le> 2 powi (k - 53)" using qk half by linarith
  have small: "(2 :: real) powi (k - 53) \<le> 2 powi k" by (rule pow2_mono) simp
  have "(2 :: real) powi (k + 1) = 2 powi k * 2 powi 1" by (rule pow2_split)
  then have dbl: "(2 :: real) powi (k + 1) = 2 * 2 powi k" by simp
  from k(2) have "(2 :: real) powi (k + 1) \<le> 2 powi 1023" by (intro pow2_mono) simp
  moreover have "(2 :: real) powi 1023 < 2 powi 1024"
    by (rule power_int_strict_increasing) simp_all
  ultimately have "of_int n * q < float_overflow"
    using err small dbl x by (simp add: float_overflow_def a_def)
  then have r: "round64 x = Finite (if 0 < x then of_int n * q else - (of_int n * q))"
    by (simp add: round64_def Let_def rm a_def[symmetric])
  show thesis
  proof (rule that[OF r])
    show "\<bar>(if 0 < x then of_int n * q else - (of_int n * q)) - x\<bar> \<le> 2 powi (k - 53)"
      using err by (auto simp: a_def abs_if split: if_splits)
  qed
qed

lemma boundary_roundings:
  "round64 4 = Finite 4" "round64 80 = Finite 80" "round64 81 = Finite 81"
  "round64 (- 4) = Finite (- 4)" "round64 (- 80) = Finite (- 80)"
  "round64 (- 79) = Finite (- 79)"
  by (simp add: round64_normal[where e = 2] round_half_even_def,
      simp add: round64_normal[where e = 6] round_half_even_def,
      simp add: round64_normal[where e = 6] round_half_even_def,
      simp add: round64_normal[where e = 2] round_half_even_def,
      simp add: round64_normal[where e = 6] round_half_even_def,
      simp add: round64_normal[where e = 6] round_half_even_def)

lemma point_size_boundaries:
  "clip (shift (scale 20 (rsub 5 1)) 1) 1 50 = 50"
  "clip (shift (scale 20 (rsub 5 9)) 1) 1 50 = 1"
  by (simp_all add: rsub_def scale_def shift_def clip_def boundary_roundings)

lemma clamp_close:
  assumes "\<bar>v - x\<bar> \<le> e" "lo \<le> hi"
  shows "\<bar>min hi (max v lo) - clamp x lo hi\<bar> \<le> e"
  using assms by (auto simp: clamp_def min_def max_def abs_le_iff)

lemma point_size_close:
  "\<bar>clip (shift (scale 20 (rsub 5 m)) 1) 1 50 - clamp (20 * (5 - m) + 1) 1 50\<bar> \<le> 1 / 2 ^ 44"
proof -
  consider "m < 1" | "9 < m" | "1 \<le> m" "m \<le> 9" by linarith
  then show ?thesis
  proof cases
    case 1
    then have "m \<le> 1" by simp
    from point_size_antitone[OF this] clip_bounds(2)[of 1 50 "shift (scale 20 (rsub 5 m)) 1"]
    have "clip (shift (scale 20 (rsub 5 m)) 1) 1 50 = 50"
      by (simp add: point_size_boundaries)
    with 1 show ?thesis by (simp add: clamp_def)
  next
    case 2
    then have "9 \<le> m" by simp
    from point_size_antitone[OF this] clip_bounds(1)[of 1 50 "shift (scale 20 (rsub 5 m)) 1"]
    have "clip (shift (scale 20 (rsub 5 m)) 1) 1 50 = 1"
      by (simp add: point_size_boundaries)
    with 2 show ?thesis by (simp add: clamp_def)
  next
    case 3
    then have x1: "\<bar>5 - m\<bar> \<le> 2 powi 2" by (simp add: abs_le_iff)
    obtain v1 where s1: "round64 (5 - m) = Finite v1" and e1: "\<bar>v1 - (5 - m)\<bar> \<le> 2 powi (2 - 53)"
      by (rule round64_error[OF _ _ x1]) simp_all
    have c51: "(2 :: real) powi (2 - 53) = 1 / 2 ^ 51" and c46: "(2 :: real) powi (7 - 53) = 1 / 2 ^ 46"
      by (simp_all add: power_int_minus_divide)
    from e1 have e1': "\<bar>v1 - (5 - m)\<bar> \<le> 1 / 2 ^ 51" by (simp only: c51)
    have "(1 :: real) / 2 ^ 51 \<le> 1" by simp
    with e1' 3 have "\<bar>20 * v1\<bar> \<le> 128" by linarith
    then have x2: "\<bar>20 * v1\<bar> \<le> 2 powi 7" by simp
    obtain v2 where s2: "round64 (20 * v1) = Finite v2"
      and e2: "\<bar>v2 - 20 * v1\<bar> \<le> 2 powi (7 - 53)"
      by (rule round64_error[OF _ _ x2]) simp_all
    from e2 have e2': "\<bar>v2 - 20 * v1\<bar> \<le> 1 / 2 ^ 46" by (simp only: c46)
    have "(1 :: real) / 2 ^ 46 \<le> 1" "(20 :: real) / 2 ^ 51 \<le> 1" by simp_all
    with e1' e2' 3 have "\<bar>v2 + 1\<bar> \<le> 128" by linarith
    then have x3: "\<bar>v2 + 1\<bar> \<le> 2 powi 7" by simp
    obtain v3 where s3: "round64 (v2 + 1) = Finite v3"
      and e3: "\<bar>v3 - (v2 + 1)\<bar> \<le> 2 powi (7 - 53)"
      by (rule round64_error[OF _ _ x3]) simp_all
    from e3 have e3': "\<bar>v3 - (v2 + 1)\<bar> \<le> 1 / 2 ^ 46" by (simp only: c46)
    have size: "clip (shift (scale 20 (rsub 5 m)) 1) 1 50 = min 50 (max v3 1)"
      by (simp add: rsub_def scale_def shift_def clip_def s1 s2 s3)
    define a b c :: real where "a = 1 / 2 ^ 51" and "b = 1 / 2 ^ 46" and "c = 1 / 2 ^ 44"
    have "20 * a + b + b \<le> c" by (simp add: a_def b_def c_def)
    moreover from e1' have "v1 - (5 - m) \<le> a \<and> - (v1 - (5 - m)) \<le> a"
      by (simp only: a_def abs_le_iff)
    moreover from e2' have "v2 - 20 * v1 \<le> b \<and> - (v2 - 20 * v1) \<le> b"
      by (simp only: b_def abs_le_iff)
    moreover from e3' have "v3 - (v2 + 1) \<le> b \<and> - (v3 - (v2 + 1)) \<le> b"
      by (simp only: b_def abs_le_iff)
    ultimately have "\<bar>v3 - (20 * (5 - m) + 1)\<bar> \<le> c"
      unfolding abs_le_iff by (simp add: algebra_simps)
    then have "\<bar>v3 - (20 * (5 - m) + 1)\<bar> \<le> 1 / 2 ^ 44" by (simp only: c_def)
    then show ?thesis
      unfolding size by (rule clamp_close) simp
  qed
qed

subsection \<open>Exact and literal values\<close>

lemma point_size_exact:
  assumes "representable (5 - m)" "representable (20 * (5 - m))"
    "representable (20 * (5 - m) + 1)"
  shows "clip (shift (scale 20 (rsub 5 m)) 1) 1 50 = clamp (20 * (5 - m) + 1) 1 50"
  using assms
  by (simp add: representable_def rsub_def scale_def shift_def clip_def clamp_def min_def max_def)

lemma point_sizes_rows:
  "list_all2 (\<lambda>s row. s = clip (shift (scale 20 (rsub 5 (magnitude row))) 1) 1 50)
     (point_sizes (map magnitude rows)) rows"
  by (simp add: point_sizes_def list_all2_map1 list_all2_same comp_def)

lemma point_sizes_close_rows:
  "list_all2 (\<lambda>s row.
       s = clip (shift (scale 20 (rsub 5 (magnitude row))) 1) 1 50
       \<and> \<bar>s - clamp (20 * (5 - magnitude row) + 1) 1 50\<bar> \<le> 1 / 2 ^ 44
       \<and> (representable (5 - magnitude row)
            \<and> representable (20 * (5 - magnitude row))
            \<and> representable (20 * (5 - magnitude row) + 1)
          \<longrightarrow> s = clamp (20 * (5 - magnitude row) + 1) 1 50))
     (point_sizes (map magnitude rows)) rows"
proof (rule list_all2_mono[OF point_sizes_rows])
  fix s row
  assume "s = clip (shift (scale 20 (rsub 5 (magnitude row))) 1) 1 50"
  with point_size_close[of "magnitude row"] point_size_exact[of "magnitude row"]
  show "s = clip (shift (scale 20 (rsub 5 (magnitude row))) 1) 1 50
       \<and> \<bar>s - clamp (20 * (5 - magnitude row) + 1) 1 50\<bar> \<le> 1 / 2 ^ 44
       \<and> (representable (5 - magnitude row)
            \<and> representable (20 * (5 - magnitude row))
            \<and> representable (20 * (5 - magnitude row) + 1)
          \<longrightarrow> s = clamp (20 * (5 - magnitude row) + 1) 1 50)"
    by blast
qed

lemma float_literals:
  "round64 (42 / 10) = Finite (4728779608739021 / 1125899906842624)"
  "round64 (31 / 10) = Finite (6980579422424269 / 2251799813685248)"
  by (simp add: round64_normal[where e = 2] round_half_even_def,
      simp add: round64_normal[where e = 1] round_half_even_def)

lemma float_literals_representable:
  "representable (4728779608739021 / 1125899906842624)"
  "representable (6980579422424269 / 2251799813685248)"
  unfolding representable_def
  by (simp add: round64_normal[where e = 2] round_half_even_def,
      simp add: round64_normal[where e = 1] round_half_even_def)

subsection \<open>Sizes and loops\<close>

lemma visible_rows_Nil: "visible_rows P obs [] = []"
  by (simp add: visible_rows_def)

lemma visible_rows_Cons:
  "visible_rows P obs (row # rows) =
     (if above_horizon P obs row then row # visible_rows P obs rows
      else visible_rows P obs rows)"
  by (simp add: visible_rows_def)

lemma star_loop_Inr:
  "star_loop P obs rows (ps, ms) = Inr (ps', ms') \<Longrightarrow>
     (\<forall>row\<in>set rows. altaz P obs row \<noteq> None) \<and>
     ps' = ps @ map (position_of P obs) (visible_rows P obs rows) \<and>
     ms' = ms @ map magnitude (visible_rows P obs rows)"
proof (induction rows arbitrary: ps ms)
  case Nil
  then show ?case by (simp add: visible_rows_Nil)
next
  case (Cons row rows)
  from Cons.prems obtain alt az where A: "altaz P obs row = Some (alt, az)"
    by (auto split: option.splits)
  show ?case
  proof (cases "0 < alt")
    case True
    with Cons.prems A
    have "star_loop P obs rows (ps @ [(az, alt)], ms @ [magnitude row]) = Inr (ps', ms')"
      by simp
    from Cons.IH[OF this] A True show ?thesis
      by (simp add: visible_rows_Cons above_horizon_def position_of_def)
  next
    case False
    with Cons.prems A have "star_loop P obs rows (ps, ms) = Inr (ps', ms')"
      by simp
    from Cons.IH[OF this] A False show ?thesis
      by (simp add: visible_rows_Cons above_horizon_def)
  qed
qed

lemma gui_star_loop_Inr:
  "gui_star_loop P obs rows (ps, ms, cs) = Inr (ps', ms', cs') \<Longrightarrow>
     (\<forall>row\<in>set rows. altaz P obs row \<noteq> None) \<and>
     ps' = ps @ map (position_of P obs) (visible_rows P obs rows) \<and>
     ms' = ms @ map magnitude (visible_rows P obs rows) \<and>
     cs' = cs @ map (\<lambda>row. star_color (magnitude row)) (visible_rows P obs rows)"
proof (induction rows arbitrary: ps ms cs)
  case Nil
  then show ?case by (simp add: visible_rows_Nil)
next
  case (Cons row rows)
  from Cons.prems obtain alt az where A: "altaz P obs row = Some (alt, az)"
    by (auto split: option.splits)
  show ?case
  proof (cases "0 < alt")
    case True
    with Cons.prems A
    have "gui_star_loop P obs rows
            (ps @ [(az, alt)], ms @ [magnitude row], cs @ [star_color (magnitude row)])
          = Inr (ps', ms', cs')"
      by simp
    from Cons.IH[OF this] A True show ?thesis
      by (simp add: visible_rows_Cons above_horizon_def position_of_def)
  next
    case False
    with Cons.prems A have "gui_star_loop P obs rows (ps, ms, cs) = Inr (ps', ms', cs')"
      by simp
    from Cons.IH[OF this] A False show ?thesis
      by (simp add: visible_rows_Cons above_horizon_def)
  qed
qed

lemma star_loop_total:
  "\<forall>row\<in>set rows. altaz P obs row \<noteq> None \<Longrightarrow> \<exists>r. star_loop P obs rows (ps, ms) = Inr r"
  by (induction rows arbitrary: ps ms) (auto split: option.splits)

lemma gui_star_loop_total:
  "\<forall>row\<in>set rows. altaz P obs row \<noteq> None \<Longrightarrow> \<exists>r. gui_star_loop P obs rows (ps, ms, cs) = Inr r"
  by (induction rows arbitrary: ps ms cs) (auto split: option.splits)

lemma visible_position:
  "row \<in> set (visible_rows P obs df) \<Longrightarrow>
     \<exists>alt az. altaz P obs row = Some (alt, az) \<and> 0 < alt \<and> position_of P obs row = (az, alt)"
  by (auto simp: visible_rows_def above_horizon_def position_of_def split: option.splits)

text \<open>The result of a query whose preparation succeeded.\<close>

lemma get_star_positions_eq:
  assumes "stars_df self = Some df" "observer_location self = Some loc"
    "to_utc P time = Inr u" "location_at P loc (ts_utc P (ts self) (utc_fields u)) = Some obs"
    "get_star_positions P self time tzn = Inr (az, alt, sizes)"
  shows "az = map (fst \<circ> position_of P obs) (visible_rows P obs df) \<and>
         alt = map (snd \<circ> position_of P obs) (visible_rows P obs df) \<and>
         sizes = point_sizes (map magnitude (visible_rows P obs df))"
proof -
  from assms obtain ps ms where L: "star_loop P obs df ([], []) = Inr (ps, ms)"
    and R: "(if ps = [] then Inr ([], [], []) else Inr (map fst ps, map snd ps, point_sizes ms))
            = (Inr (az, alt, sizes) :: error + _)"
    by (auto simp: get_star_positions_def split: sum.splits prod.splits)
  from star_loop_Inr[OF L] have ps: "ps = map (position_of P obs) (visible_rows P obs df)"
    and ms: "ms = map magnitude (visible_rows P obs df)" by auto
  show ?thesis
  proof (cases "ps = []")
    case True
    with R ps ms show ?thesis by (auto simp: point_sizes_def)
  next
    case False
    with R ps ms show ?thesis by auto
  qed
qed

lemma gui_get_star_positions_eq:
  assumes "stars_df self = Some df" "observer_location self = Some loc"
    "to_utc P time = Inr u" "location_at P loc (ts_utc P (ts self) (utc_fields u)) = Some obs"
    "gui_get_star_positions P self time tzn = Inr (az, alt, sizes, colors)"
  shows "az = map (fst \<circ> position_of P obs) (visible_rows P obs df) \<and>
         alt = map (snd \<circ> position_of P obs) (visible_rows P obs df) \<and>
         sizes = point_sizes (map magnitude (visible_rows P obs df)) \<and>
         colors = map (\<lambda>row. star_color (magnitude row)) (visible_rows P obs df)"
proof -
  from assms obtain ps ms cs where L: "gui_star_loop P obs df ([], [], []) = Inr (ps, ms, cs)"
    and R: "(if ps = [] then Inr ([], [], [], [])
             else Inr (map fst ps, map snd ps, point_sizes ms, cs))
            = (Inr (az, alt, sizes, colors) :: error + _)"
    by (auto simp: gui_get_star_positions_def split: sum.splits prod.splits)
  from gui_star_loop_Inr[OF L] have ps: "ps = map (position_of P obs) (visible_rows P obs df)"
    and ms: "ms = map magnitude (visible_rows P obs df)"
    and cs: "cs = map (\<lambda>row. star_color (magnitude row)) (visible_rows P obs df)" by auto
  show ?thesis
  proof (cases "ps = []")
    case True
    with R ps ms cs show ?thesis by (auto simp: point_sizes_def)
  next
    case False
    with R ps ms cs show ?thesis by auto
  qed
qed

lemma star_loop_below:
  "\<forall>row\<in>set rows. \<exists>a z. altaz P obs row = Some (a, z) \<and> a \<le> 0 \<Longrightarrow>
     star_loop P obs rows acc = Inr acc"
proof (induction rows)
  case Nil
  then show ?case by simp
next
  case (Cons row rows)
  obtain ps ms where "acc = (ps, ms)" by (cases acc)
  with Cons show ?case by auto
qed

lemma gui_star_loop_below:
  "\<forall>row\<in>set rows. \<exists>a z. altaz P obs row = Some (a, z) \<and> a \<le> 0 \<Longrightarrow>
     gui_star_loop P obs rows acc = Inr acc"
proof (induction rows)
  case Nil
  then show ?case by simp
next
  case (Cons row rows)
  obtain ps ms cs where "acc = (ps, ms, cs)" by (cases acc)
  with Cons show ?case by auto
qed

subsection \<open>Calendar arithmetic\<close>

lemma month_from_correct:
  assumes "1 \<le> m" "m \<le> 12" "1 \<le> d"
    and "d \<le> (if m = 2 \<and> leap then 29 else DAYS_IN_MONTH ! nat m)"
    and n: "n = DAYS_BEFORE_MONTH ! nat m + (if 2 < m \<and> leap then 1 else 0) + d - 1"
  shows "month_from leap n ((n + 50) div 32) = (m, d)"
proof -
  define k where "k = (n + 50) div 32"
  have kb: "32 * k \<le> n + 50" "n + 50 < 32 * k + 32"
    unfolding k_def by presburger+
  have mc: "m = 1 \<or> m = 2 \<or> m = 3 \<or> m = 4 \<or> m = 5 \<or> m = 6 \<or> m = 7 \<or> m = 8 \<or> m = 9
            \<or> m = 10 \<or> m = 11 \<or> m = 12"
    using assms(1,2) by arith
  have km: "(k = m \<or> k = m + 1) \<and> k \<le> 12"
    using mc kb assms(3,4) n
    by (elim disjE; cases leap; simp add: DAYS_BEFORE_MONTH_def DAYS_IN_MONTH_def; arith)
  have "month_from leap n k = (m, d)"
    using mc km kb assms(3,4) n
    by (elim disjE conjE; cases leap;
        simp add: month_from_def DAYS_BEFORE_MONTH_def DAYS_IN_MONTH_def)
  then show ?thesis by (simp add: k_def)
qed

lemma ord2ymd_month_from:
  "ord2ymd n0 =
     (let n = n0 - 1;
          n400 = n div 146097; n = n mod 146097;
          yr = n400 * 400 + 1;
          n100 = n div 36524; n = n mod 36524;
          n4 = n div 1461; n = n mod 1461;
          n1 = n div 365; n = n mod 365;
          yr = yr + n100 * 100 + n4 * 4 + n1
      in if n1 = 4 \<or> n100 = 4 then (yr - 1, 12, 31)
         else (case month_from (n1 = 3 \<and> (n4 \<noteq> 24 \<or> n100 = 3)) n ((n + 50) div 32) of
                 (mo, d) \<Rightarrow> (yr, mo, d)))"
proof -
  have aux: "(case (if c then (a, b) else (a', b')) of (mo, d) \<Rightarrow> (yr, mo, d))
               = (if c then (yr, a, b) else (yr, a', b'))"
    for c and yr a b a' b' :: int
    by simp
  show ?thesis
    unfolding ord2ymd_def month_from_def Let_def aux by (rule refl)
qed

lemma divmod_unique:
  fixes a b q r :: int
  assumes "a = b * q + r" "0 \<le> r" "r < b"
  shows "a div b = q" and "a mod b = r"
  using assms by (rule int_div_pos_eq, rule int_mod_pos_eq)

lemma year_parts:
  fixes y :: int
  assumes "1 \<le> y"
  obtains q c f e where "y - 1 = 400 * q + 100 * c + 4 * f + e"
    and "0 \<le> q" and "0 \<le> c" and "c \<le> 3" and "0 \<le> f" and "f \<le> 24"
    and "0 \<le> e" and "e \<le> 3"
proof -
  define q where "q = (y - 1) div 400"
  define r4 where "r4 = (y - 1) mod 400"
  define c where "c = r4 div 100"
  define r1 where "r1 = r4 mod 100"
  define f where "f = r1 div 4"
  define e where "e = r1 mod 4"
  have y: "y - 1 = 400 * q + r4" by (simp add: q_def r4_def)
  have r4: "0 \<le> r4" "r4 < 400" by (simp_all add: r4_def)
  have r4e: "r4 = 100 * c + r1" by (simp add: c_def r1_def)
  have r1: "0 \<le> r1" "r1 < 100" by (simp_all add: r1_def)
  have r1e: "r1 = 4 * f + e" by (simp add: f_def e_def)
  have e: "0 \<le> e" "e < 4" by (simp_all add: e_def)
  have q0: "0 \<le> q" using assms by (simp add: q_def)
  have c0: "0 \<le> c" using r4 by (simp add: c_def)
  have f0: "0 \<le> f" using r1 by (simp add: f_def)
  have c3: "c \<le> 3" using r4 r4e r1 by linarith
  have f24: "f \<le> 24" using r1 r1e e by linarith
  have "y - 1 = 400 * q + 100 * c + 4 * f + e" using y r4e r1e by linarith
  with q0 c0 c3 f0 f24 e that show thesis by simp
qed

lemma day_of_year:
  assumes "1 \<le> m" "m \<le> 12" "1 \<le> d"
    and "d \<le> (if m = 2 \<and> leap then 29 else DAYS_IN_MONTH ! nat m)"
    and n: "n = DAYS_BEFORE_MONTH ! nat m + (if 2 < m \<and> leap then 1 else 0) + d - 1"
  shows "0 \<le> n" and "n \<le> (if leap then 365 else 364)"
    and "n = 365 \<Longrightarrow> m = 12 \<and> d = 31"
proof -
  have mc: "m = 1 \<or> m = 2 \<or> m = 3 \<or> m = 4 \<or> m = 5 \<or> m = 6 \<or> m = 7 \<or> m = 8 \<or> m = 9
            \<or> m = 10 \<or> m = 11 \<or> m = 12"
    using assms(1,2) by arith
  show "0 \<le> n"
    using mc assms(3,4) n
    by (elim disjE; cases leap; simp add: DAYS_BEFORE_MONTH_def DAYS_IN_MONTH_def)
  show "n \<le> (if leap then 365 else 364)"
    using mc assms(3,4) n
    by (elim disjE; cases leap; simp add: DAYS_BEFORE_MONTH_def DAYS_IN_MONTH_def)
  show "m = 12 \<and> d = 31" if "n = 365"
    using that mc assms(3,4) n
    by (elim disjE; cases leap; simp add: DAYS_BEFORE_MONTH_def DAYS_IN_MONTH_def)
qed

lemma is_leap_parts:
  fixes q c f e :: int
  assumes yv: "y = 400 * q + 100 * c + 4 * f + e + 1"
    and b: "0 \<le> c" "c \<le> 3" "0 \<le> f" "f \<le> 24" "0 \<le> e" "e \<le> 3"
  shows "is_leap y \<longleftrightarrow> (e = 3 \<and> (f \<noteq> 24 \<or> c = 3))"
proof -
  have m4: "y mod 4 = 0 \<longleftrightarrow> e = 3"
  proof (cases "e = 3")
    case True
    have "y mod 4 = 0"
      by (rule divmod_unique(2)[where q = "100 * q + 25 * c + f + 1"])
         (simp_all add: yv True)
    with True show ?thesis by simp
  next
    case False
    have "y mod 4 = e + 1"
      by (rule divmod_unique(2)[where q = "100 * q + 25 * c + f"])
         (use b False in \<open>simp_all add: yv\<close>)
    with False b show ?thesis by simp
  qed
  have m100: "y mod 100 = 0 \<longleftrightarrow> (e = 3 \<and> f = 24)"
  proof (cases "e = 3 \<and> f = 24")
    case True
    have "y mod 100 = 0"
      by (rule divmod_unique(2)[where q = "4 * q + c + 1"]) (simp_all add: yv True)
    with True show ?thesis by simp
  next
    case False
    have "y mod 100 = 4 * f + e + 1"
      by (rule divmod_unique(2)[where q = "4 * q + c"])
         (use b False in \<open>simp_all add: yv\<close>, linarith)
    with False b show ?thesis by simp
  qed
  have m400: "y mod 400 = 0 \<longleftrightarrow> (e = 3 \<and> f = 24 \<and> c = 3)"
  proof (cases "e = 3 \<and> f = 24 \<and> c = 3")
    case True
    have "y mod 400 = 0"
      by (rule divmod_unique(2)[where q = "q + 1"]) (simp_all add: yv True)
    with True show ?thesis by simp
  next
    case False
    have "y mod 400 = 100 * c + 4 * f + e + 1"
      by (rule divmod_unique(2)[where q = q])
         (use b False in \<open>simp_all add: yv\<close>, linarith)
    with False b show ?thesis by simp
  qed
  show ?thesis unfolding is_leap_def m4 m100 m400 by blast
qed

lemma days_before_year_parts:
  fixes q c f e :: int
  assumes dec: "y - 1 = 400 * q + 100 * c + 4 * f + e"
    and b: "0 \<le> c" "c \<le> 3" "0 \<le> f" "f \<le> 24" "0 \<le> e" "e \<le> 3"
  shows "days_before_year y = 146097 * q + 36524 * c + 1461 * f + 365 * e"
proof -
  have d4: "(y - 1) div 4 = 100 * q + 25 * c + f"
    by (rule divmod_unique(1)[where r = e]) (use b in \<open>simp_all add: dec\<close>)
  have d100: "(y - 1) div 100 = 4 * q + c"
    by (rule divmod_unique(1)[where r = "4 * f + e"]) (use b in \<open>simp_all add: dec\<close>)
  have d400: "(y - 1) div 400 = q"
    by (rule divmod_unique(1)[where r = "100 * c + 4 * f + e"]) (use b in \<open>simp_all add: dec\<close>)
  have "days_before_year y = (y - 1) * 365 + (100 * q + 25 * c + f) - (4 * q + c) + q"
    by (simp only: days_before_year_def Let_def d4 d100 d400)
  then show ?thesis unfolding dec by simp
qed

lemma ord2ymd_ymd2ord:
  assumes y: "1 \<le> y" and m: "1 \<le> m" "m \<le> 12" and d: "1 \<le> d" "d \<le> days_in_month y m"
  shows "ord2ymd (ymd2ord y m d) = (y, m, d)"
proof -
  from y obtain q c f e where dec: "y - 1 = 400 * q + 100 * c + 4 * f + e"
    and b: "0 \<le> q" "0 \<le> c" "c \<le> 3" "0 \<le> f" "f \<le> 24" "0 \<le> e" "e \<le> 3"
    by (rule year_parts)
  have yv: "y = 400 * q + 100 * c + 4 * f + e + 1" using dec by simp
  have leap: "is_leap y \<longleftrightarrow> (e = 3 \<and> (f \<noteq> 24 \<or> c = 3))"
    using yv b(2-7) by (rule is_leap_parts)
  define doy where
    "doy = DAYS_BEFORE_MONTH ! nat m + (if 2 < m \<and> is_leap y then 1 else 0) + d - 1"
  have dm: "d \<le> (if m = 2 \<and> is_leap y then 29 else DAYS_IN_MONTH ! nat m)"
    using d(2) by (simp add: days_in_month_def)
  note doyb = day_of_year[OF m d(1) dm doy_def]
  have dby: "days_before_year y = 146097 * q + 36524 * c + 1461 * f + 365 * e"
    using dec b(2-7) by (rule days_before_year_parts)
  have ord: "ymd2ord y m d - 1 = 146097 * q + (36524 * c + 1461 * f + 365 * e + doy)"
    by (simp add: ymd2ord_def days_before_month_def dby doy_def)
  define R1 where "R1 = 36524 * c + 1461 * f + 365 * e + doy"
  have R1b: "0 \<le> R1" "R1 < 146097"
    using b doyb(1,2) leap by (auto simp: R1_def split: if_splits)
  have ord': "ymd2ord y m d - 1 = 146097 * q + R1" using ord by (simp add: R1_def)
  note n400 = divmod_unique[OF ord' R1b]
  show ?thesis
  proof (cases "doy = 365")
    case True
    then have md: "m = 12 \<and> d = 31" by (rule doyb(3))
    from True doyb(2) have lp: "is_leap y" by (simp split: if_splits)
    with leap have e3: "e = 3" and fc: "f \<noteq> 24 \<or> c = 3" by simp_all
    show ?thesis
    proof (cases "f = 24")
      case True
      with fc have c3: "c = 3" by simp
      have "R1 = 146096" by (simp add: R1_def e3 True c3 \<open>doy = 365\<close>)
      then have "ord2ymd (ymd2ord y m d) = (q * 400 + 400, 12, 31)"
        by (simp add: ord2ymd_def n400 Let_def)
      moreover have "y = q * 400 + 400" by (simp add: yv e3 True c3)
      ultimately show ?thesis using md by simp
    next
      case False
      define R2 where "R2 = 1461 * f + 1460"
      have R2b: "0 \<le> R2" "R2 < 36524" using b False by (simp_all add: R2_def)
      have R1e: "R1 = 36524 * c + R2" by (simp add: R1_def R2_def e3 \<open>doy = 365\<close>)
      note n100 = divmod_unique[OF R1e R2b]
      have R2e: "R2 = 1461 * f + 1460" by (simp add: R2_def)
      have n4: "R2 div 1461 = f" "R2 mod 1461 = 1460"
        by (rule divmod_unique[OF R2e], simp, simp, rule divmod_unique[OF R2e], simp, simp)
      have "ord2ymd (ymd2ord y m d) = (q * 400 + c * 100 + f * 4 + 4, 12, 31)"
        by (simp add: ord2ymd_def n400 n100 n4 Let_def)
      moreover have "y = q * 400 + c * 100 + f * 4 + 4" by (simp add: yv e3)
      ultimately show ?thesis using md by simp
    qed
  next
    case False
    with doyb(2) have doy364: "doy \<le> 364" by (simp split: if_splits)
    define R2 where "R2 = 1461 * f + 365 * e + doy"
    have R2b: "0 \<le> R2" "R2 < 36524" using b doyb(1) doy364 by (simp_all add: R2_def)
    have R1e: "R1 = 36524 * c + R2" by (simp add: R1_def R2_def)
    note n100 = divmod_unique[OF R1e R2b]
    define R3 where "R3 = 365 * e + doy"
    have R3b: "0 \<le> R3" "R3 < 1461" using b doyb(1) doy364 by (simp_all add: R3_def)
    have R2e: "R2 = 1461 * f + R3" by (simp add: R2_def R3_def)
    note n4 = divmod_unique[OF R2e R3b]
    have R3e: "R3 = 365 * e + doy" by (simp add: R3_def)
    have doy365: "doy < 365" using doy364 by simp
    note n1 = divmod_unique[OF R3e doyb(1) doy365]
    have mf: "month_from (is_leap y) doy ((doy + 50) div 32) = (m, d)"
      using m d(1) dm doy_def by (rule month_from_correct)
    from b have ne: "e \<noteq> 4" "c \<noteq> 4" by simp_all
    have "ord2ymd (ymd2ord y m d) = (q * 400 + 1 + (c * 100 + f * 4 + e), m, d)"
      using mf[unfolded leap] ne
      by (simp add: ord2ymd_month_from n400 n100 n4 n1 Let_def)
    moreover have "y = q * 400 + 1 + (c * 100 + f * 4 + e)" by (simp add: yv)
    ultimately show ?thesis by simp
  qed
qed

lemma split_micro:
  fixes A r :: int
  assumes "0 \<le> r" "r < 1000000"
  shows "(A * 1000000 + r) div 86400000000 = A div 86400"
    and "((A * 1000000 + r) mod 86400000000) div 1000000 = A mod 86400"
    and "((A * 1000000 + r) mod 86400000000) mod 1000000 = r"
proof -
  have d: "(A * 1000000 + r) div 1000000 = A" using assms by simp
  have m: "(A * 1000000 + r) mod 1000000 = r" using assms by simp
  have e: "(86400000000 :: int) = 1000000 * 86400" by simp
  show "(A * 1000000 + r) div 86400000000 = A div 86400"
    unfolding e using zdiv_zmult2_eq[of 86400 "A * 1000000 + r" 1000000] d by simp
  have mm: "(A * 1000000 + r) mod 86400000000 = 1000000 * (A mod 86400) + r"
    unfolding e using zmod_zmult2_eq[of 86400 "A * 1000000 + r" 1000000] d m by simp
  show "((A * 1000000 + r) mod 86400000000) div 1000000 = A mod 86400"
    unfolding mm using assms by simp
  show "((A * 1000000 + r) mod 86400000000) mod 1000000 = r"
    unfolding mm using assms by simp
qed

lemma ymd2ord_range:
  assumes y: "1 \<le> y" "y \<le> 9999" and m: "1 \<le> m" "m \<le> 12"
    and d: "1 \<le> d" "d \<le> days_in_month y m"
  shows "0 < ymd2ord y m d" and "ymd2ord y m d \<le> MAXORDINAL"
proof -
  from y(1) obtain q c f e where dec: "y - 1 = 400 * q + 100 * c + 4 * f + e"
    and b: "0 \<le> q" "0 \<le> c" "c \<le> 3" "0 \<le> f" "f \<le> 24" "0 \<le> e" "e \<le> 3"
    by (rule year_parts)
  define doy where
    "doy = DAYS_BEFORE_MONTH ! nat m + (if 2 < m \<and> is_leap y then 1 else 0) + d - 1"
  have dm: "d \<le> (if m = 2 \<and> is_leap y then 29 else DAYS_IN_MONTH ! nat m)"
    using d(2) by (simp add: days_in_month_def)
  note doyb = day_of_year[OF m d(1) dm doy_def]
  have dby: "days_before_year y = 146097 * q + 36524 * c + 1461 * f + 365 * e"
    using dec b(2-7) by (rule days_before_year_parts)
  have ord: "ymd2ord y m d = 146097 * q + 36524 * c + 1461 * f + 365 * e + doy + 1"
    by (simp add: ymd2ord_def days_before_month_def dby doy_def)
  show "0 < ymd2ord y m d" using b doyb(1) by (simp add: ord)
  show "ymd2ord y m d \<le> MAXORDINAL"
  proof (cases "y = 9999")
    case True
    have nl: "\<not> is_leap 9999" by (simp add: is_leap_def)
    with doyb(2) True have "doy \<le> 364" by simp
    moreover have "days_before_year 9999 = 3651694" by (simp add: days_before_year_def)
    ultimately show ?thesis
      by (simp add: ymd2ord_def days_before_month_def doy_def True nl MAXORDINAL_def)
  next
    case False
    with y(2) have "400 * q + 100 * c + 4 * f + e \<le> 9997" using dec by linarith
    moreover from doyb(2) have "doy \<le> 365" by (simp split: if_splits)
    ultimately show ?thesis using b unfolding ord MAXORDINAL_def by linarith
  qed
qed

lemma time_parts:
  fixes n h mi s :: int
  assumes "0 \<le> h" "h < 24" "0 \<le> mi" "mi < 60" "0 \<le> s" "s < 60"
  defines "A \<equiv> ((n * 24 + h) * 60 + mi) * 60 + s"
  shows "A div 86400 = n"
    and "(A mod 86400) div 3600 = h"
    and "((A mod 86400) mod 3600) div 60 = mi"
    and "((A mod 86400) mod 3600) mod 60 = s"
proof -
  have A: "A = 86400 * n + (3600 * h + 60 * mi + s)" by (simp add: A_def)
  have r: "0 \<le> 3600 * h + 60 * mi + s" "3600 * h + 60 * mi + s < 86400"
    using assms(1-6) by simp_all
  note a = divmod_unique[OF A r]
  have B: "3600 * h + 60 * mi + s = 3600 * h + (60 * mi + s)" by simp
  have r2: "0 \<le> 60 * mi + s" "60 * mi + s < 3600" using assms(3-6) by simp_all
  note b = divmod_unique[OF B r2]
  have C: "60 * mi + s = 60 * mi + s" by simp
  note c = divmod_unique[OF C assms(5,6)]
  show "A div 86400 = n" by (rule a(1))
  show "(A mod 86400) div 3600 = h" by (simp only: a(2) b(1))
  show "((A mod 86400) mod 3600) div 60 = mi" by (simp only: a(2) b(2) c(1))
  show "((A mod 86400) mod 3600) mod 60 = s" by (simp only: a(2) b(2) c(2))
qed

lemma datetime_add_zero:
  assumes "valid_datetime dt"
  shows "datetime_add dt 0 = Inr dt"
proof -
  from assms have y: "1 \<le> year dt" "year dt \<le> 9999"
    and m: "1 \<le> month dt" "month dt \<le> 12"
    and d: "1 \<le> day dt" "day dt \<le> days_in_month (year dt) (month dt)"
    and t: "0 \<le> hour dt" "hour dt < 24" "0 \<le> minute dt" "minute dt < 60"
       "0 \<le> second dt" "second dt < 60"
    and us: "0 \<le> microsecond dt" "microsecond dt < 1000000"
    by (simp_all add: valid_datetime_def)
  define n where "n = ymd2ord (year dt) (month dt) (day dt)"
  define A where "A = ((n * 24 + hour dt) * 60 + minute dt) * 60 + second dt"
  have tot: "(((ymd2ord (year dt) (month dt) (day dt) * 24 + hour dt) * 60 + minute dt) * 60
               + second dt) * 1000000 + microsecond dt + 0 = A * 1000000 + microsecond dt"
    by (simp add: A_def n_def)
  note sm = split_micro[OF us, of A]
  note tp = time_parts[OF t, of n, folded A_def]
  have rng: "0 < n" "n \<le> MAXORDINAL"
    unfolding n_def using y m d by (rule ymd2ord_range)+
  have rt: "ord2ymd n = (year dt, month dt, day dt)"
    unfolding n_def using y(1) m d by (rule ord2ymd_ymd2ord)
  show ?thesis
    unfolding datetime_add_def tot Let_def sm tp using rng rt by simp
qed

lemma datetime_add_parts:
  assumes "(((ymd2ord (year dt) (month dt) (day dt) * 24 + hour dt) * 60 + minute dt) * 60
               + second dt) * 1000000 + microsecond dt + delta = A * 1000000 + r"
    and "0 \<le> r" and "r < 1000000"
  shows "datetime_add dt delta =
      (if 0 < A div 86400 \<and> A div 86400 \<le> MAXORDINAL
         then (case ord2ymd (A div 86400) of (yr, mo, d) \<Rightarrow>
                 Inr (dt\<lparr>year := yr, month := mo, day := d,
                         hour := (A mod 86400) div 3600,
                         minute := ((A mod 86400) mod 3600) div 60,
                         second := ((A mod 86400) mod 3600) mod 60,
                         microsecond := r\<rparr>))
         else Inl OverflowError)"
  unfolding datetime_add_def Let_def assms(1) split_micro[OF assms(2,3)] by (rule refl)

lemma datetime_add_microsecond:
  assumes us: "0 \<le> us" "us < 1000000"
    and old: "0 \<le> microsecond dt" "microsecond dt < 1000000"
    and delta: "delta mod 1000000 = 0"
  shows "datetime_add (dt\<lparr>microsecond := us\<rparr>) delta
           = (case datetime_add dt delta of Inl e \<Rightarrow> Inl e
              | Inr u \<Rightarrow> Inr (u\<lparr>microsecond := us\<rparr>))"
proof -
  define k where "k = delta div 1000000"
  have dk: "delta = k * 1000000"
    using div_mult_mod_eq[of delta 1000000] delta by (simp add: k_def)
  define A where "A = ((ymd2ord (year dt) (month dt) (day dt) * 24 + hour dt) * 60
                         + minute dt) * 60 + second dt + k"
  have t1: "(((ymd2ord (year (dt\<lparr>microsecond := us\<rparr>)) (month (dt\<lparr>microsecond := us\<rparr>))
                 (day (dt\<lparr>microsecond := us\<rparr>)) * 24 + hour (dt\<lparr>microsecond := us\<rparr>)) * 60
               + minute (dt\<lparr>microsecond := us\<rparr>)) * 60 + second (dt\<lparr>microsecond := us\<rparr>))
              * 1000000 + microsecond (dt\<lparr>microsecond := us\<rparr>) + delta
            = A * 1000000 + us"
    by (simp add: A_def dk algebra_simps)
  have t2: "(((ymd2ord (year dt) (month dt) (day dt) * 24 + hour dt) * 60 + minute dt) * 60
               + second dt) * 1000000 + microsecond dt + delta
            = A * 1000000 + microsecond dt"
    by (simp add: A_def dk algebra_simps)
  show ?thesis
    unfolding datetime_add_parts[OF t1 us] datetime_add_parts[OF t2 old]
    by (simp split: prod.splits)
qed

subsection \<open>Errors, time and state\<close>

lemma visible_nth:
  assumes "i < length (visible_rows P obs df)"
  shows "altaz P obs (visible_rows P obs df ! i)
           = Some (snd (position_of P obs (visible_rows P obs df ! i)),
                   fst (position_of P obs (visible_rows P obs df ! i)))
         \<and> 0 < snd (position_of P obs (visible_rows P obs df ! i))"
proof -
  from assms have "visible_rows P obs df ! i \<in> set (visible_rows P obs df)" by simp
  from visible_position[OF this] show ?thesis by auto
qed

lemma not_visible:
  "altaz P obs row = Some (a, z) \<Longrightarrow> a \<le> 0 \<Longrightarrow> row \<notin> set (visible_rows P obs df)"
  by (simp add: visible_rows_def above_horizon_def)

lemma datetime_add_error: "datetime_add dt delta = Inl e \<Longrightarrow> e = OverflowError"
  by (auto simp: datetime_add_def Let_def split: if_splits prod.splits)

lemma to_utc_error: "to_utc P time = Inl e \<Longrightarrow> e = OverflowError"
  by (auto simp: to_utc_def astimezone_utc_def Let_def split: if_splits sum.splits
           dest: datetime_add_error)

lemma star_loop_error: "star_loop P obs rows acc = Inl e \<Longrightarrow> e = ProviderError"
proof (induction rows arbitrary: acc)
  case Nil
  then show ?case by simp
next
  case (Cons row rows)
  obtain ps ms where "acc = (ps, ms)" by (cases acc)
  with Cons show ?case by (auto split: option.splits if_splits)
qed

lemma gui_star_loop_error: "gui_star_loop P obs rows acc = Inl e \<Longrightarrow> e = ProviderError"
proof (induction rows arbitrary: acc)
  case Nil
  then show ?case by simp
next
  case (Cons row rows)
  obtain ps ms cs where "acc = (ps, ms, cs)" by (cases acc)
  with Cons show ?case by (auto split: option.splits if_splits)
qed

lemma to_utc_naive: "tzinfo t = None \<Longrightarrow> to_utc P t = to_utc P (t\<lparr>tzinfo := Some UTC\<rparr>)"
  by (simp add: to_utc_def)

lemma to_utc_UTC: "tzinfo t = Some UTC \<Longrightarrow> to_utc P t = Inr t"
  by (simp add: to_utc_def astimezone_utc_def)

lemma get_star_positions_fields:
  assumes "to_utc P t1 = Inr u1" "to_utc P t2 = Inr u2" "utc_fields u1 = utc_fields u2"
  shows "get_star_positions P self t1 tzn = get_star_positions P self t2 tzn"
  using assms by (simp add: get_star_positions_def split: option.splits)

lemma gui_get_star_positions_fields:
  assumes "to_utc P t1 = Inr u1" "to_utc P t2 = Inr u2" "utc_fields u1 = utc_fields u2"
  shows "gui_get_star_positions P self t1 tzn = gui_get_star_positions P self t2 tzn"
  using assms by (simp add: gui_get_star_positions_def split: option.splits)

lemma get_star_positions_unset:
  "stars_df self = None \<or> observer_location self = None \<Longrightarrow>
     get_star_positions P self time tzn = Inl ValueError"
  by (auto simp: get_star_positions_def split: option.splits)

lemma gui_get_star_positions_unset:
  "stars_df self = None \<or> observer_location self = None \<Longrightarrow>
     gui_get_star_positions P self time tzn = Inl ValueError"
  by (auto simp: gui_get_star_positions_def split: option.splits)

lemma get_star_positions_set:
  "stars_df self = Some df \<Longrightarrow> observer_location self = Some loc \<Longrightarrow>
     get_star_positions P self time tzn \<noteq> Inl ValueError"
  by (auto simp: get_star_positions_def split: option.splits sum.splits if_splits
           dest: to_utc_error star_loop_error)

lemma gui_get_star_positions_set:
  "stars_df self = Some df \<Longrightarrow> observer_location self = Some loc \<Longrightarrow>
     gui_get_star_positions P self time tzn \<noteq> Inl ValueError"
  by (auto simp: gui_get_star_positions_def split: option.splits sum.splits if_splits
           dest: to_utc_error gui_star_loop_error)

lemma valid_datetime_tzinfo: "valid_datetime (t\<lparr>tzinfo := z\<rparr>) = valid_datetime t"
  by (simp add: valid_datetime_def)

lemma to_utc_zero_offset:
  assumes v: "valid_datetime t" and z: "utcoffset z = 0"
  shows "to_utc P (t\<lparr>tzinfo := Some z\<rparr>) = Inr (t\<lparr>tzinfo := Some UTC\<rparr>)"
proof (cases z)
  case UTC
  then show ?thesis by (simp add: to_utc_def astimezone_utc_def)
next
  case (Fixed off)
  with z have off: "off = 0" by simp
  have a: "datetime_add (t\<lparr>tzinfo := Some (Fixed 0)\<rparr>) 0 = Inr (t\<lparr>tzinfo := Some (Fixed 0)\<rparr>)"
    by (rule datetime_add_zero) (simp add: valid_datetime_tzinfo v)
  have b: "datetime_add (t\<lparr>tzinfo := Some UTC\<rparr>) 0 = Inr (t\<lparr>tzinfo := Some UTC\<rparr>)"
    by (rule datetime_add_zero) (simp add: valid_datetime_tzinfo v)
  show ?thesis
    by (simp add: to_utc_def astimezone_utc_def Fixed off a b)
qed

lemma datetime_add_microsecond_kept:
  assumes "datetime_add dt delta = Inr u"
    and "0 \<le> microsecond dt" "microsecond dt < 1000000" and "delta mod 1000000 = 0"
  shows "microsecond u = microsecond dt"
proof -
  define k where "k = delta div 1000000"
  have dk: "delta = k * 1000000"
    using div_mult_mod_eq[of delta 1000000] assms(4) by (simp add: k_def)
  define A where "A = ((ymd2ord (year dt) (month dt) (day dt) * 24 + hour dt) * 60
                         + minute dt) * 60 + second dt + k"
  have t2: "(((ymd2ord (year dt) (month dt) (day dt) * 24 + hour dt) * 60 + minute dt) * 60
               + second dt) * 1000000 + microsecond dt + delta
            = A * 1000000 + microsecond dt"
    by (simp add: A_def dk algebra_simps)
  from assms(1) show ?thesis
    unfolding datetime_add_parts[OF t2 assms(2,3)]
    by (auto split: if_splits prod.splits)
qed

lemma to_utc_microsecond:
  assumes us: "0 \<le> us" "us < 1000000"
    and old: "0 \<le> microsecond t" "microsecond t < 1000000"
    and whole: "\<forall>off. tzinfo t = Some (Fixed off) \<longrightarrow> off mod 1000000 = 0"
  shows "to_utc P (t\<lparr>microsecond := us\<rparr>)
           = (case to_utc P t of Inl e \<Rightarrow> Inl e | Inr u \<Rightarrow> Inr (u\<lparr>microsecond := us\<rparr>))"
proof (cases "tzinfo t")
  case None
  then show ?thesis by (simp add: to_utc_def astimezone_utc_def)
next
  case (Some z)
  show ?thesis
  proof (cases z)
    case UTC
    with Some show ?thesis by (simp add: to_utc_def astimezone_utc_def)
  next
    case (Fixed off)
    with Some whole have m: "off mod 1000000 = 0" by simp
    then have m': "(- off) mod 1000000 = 0" by (simp add: zmod_zminus1_eq_if)
    note first = datetime_add_microsecond[OF us old m']
    show ?thesis
    proof (cases "datetime_add t (- off)")
      case (Inl e)
      with first Some Fixed show ?thesis
        by (simp add: to_utc_def astimezone_utc_def)
    next
      case (Inr u)
      from datetime_add_microsecond_kept[OF Inr old m'] old
      have uold: "0 \<le> microsecond (u\<lparr>tzinfo := Some UTC\<rparr>)"
        "microsecond (u\<lparr>tzinfo := Some UTC\<rparr>) < 1000000" by simp_all
      have z0: "(0 :: int) mod 1000000 = 0" by simp
      have second: "datetime_add (u\<lparr>tzinfo := Some UTC, microsecond := us\<rparr>) 0
           = (case datetime_add (u\<lparr>tzinfo := Some UTC\<rparr>) 0 of Inl e \<Rightarrow> Inl e
              | Inr w \<Rightarrow> Inr (w\<lparr>microsecond := us\<rparr>))"
        by (rule datetime_add_microsecond[OF us uold z0])
      have sw: "u\<lparr>microsecond := us, tzinfo := Some UTC\<rparr>
                  = u\<lparr>tzinfo := Some UTC, microsecond := us\<rparr>" by simp
      from first Inr Some Fixed second show ?thesis
        by (simp add: to_utc_def astimezone_utc_def sw)
    qed
  qed
qed

lemma get_star_positions_time_error:
  assumes "to_utc P t1 = Inl e" "to_utc P t2 = Inl e"
  shows "get_star_positions P self t1 tzn = get_star_positions P self t2 tzn"
  using assms by (simp add: get_star_positions_def split: option.splits)

lemma gui_get_star_positions_time_error:
  assumes "to_utc P t1 = Inl e" "to_utc P t2 = Inl e"
  shows "gui_get_star_positions P self t1 tzn = gui_get_star_positions P self t2 tzn"
  using assms by (simp add: gui_get_star_positions_def split: option.splits)

lemma microsecond_irrelevant:
  assumes us: "0 \<le> us" "us < 1000000"
    and old: "0 \<le> microsecond t" "microsecond t < 1000000"
    and whole: "\<forall>off. tzinfo t = Some (Fixed off) \<longrightarrow> off mod 1000000 = 0"
  shows "get_star_positions P self (t\<lparr>microsecond := us\<rparr>) tzn
           = get_star_positions P self t tzn"
    and "gui_get_star_positions P self (t\<lparr>microsecond := us\<rparr>) tzn
           = gui_get_star_positions P self t tzn"
proof -
  note eq = to_utc_microsecond[OF us old whole, of P]
  show "get_star_positions P self (t\<lparr>microsecond := us\<rparr>) tzn
           = get_star_positions P self t tzn"
  proof (cases "to_utc P t")
    case (Inl e)
    with eq have "to_utc P (t\<lparr>microsecond := us\<rparr>) = Inl e" by simp
    from get_star_positions_time_error[OF this Inl] show ?thesis .
  next
    case (Inr u)
    with eq have a: "to_utc P (t\<lparr>microsecond := us\<rparr>) = Inr (u\<lparr>microsecond := us\<rparr>)" by simp
    have f: "utc_fields (u\<lparr>microsecond := us\<rparr>) = utc_fields u" by (simp add: utc_fields_def)
    from get_star_positions_fields[OF a Inr f] show ?thesis .
  qed
  show "gui_get_star_positions P self (t\<lparr>microsecond := us\<rparr>) tzn
           = gui_get_star_positions P self t tzn"
  proof (cases "to_utc P t")
    case (Inl e)
    with eq have "to_utc P (t\<lparr>microsecond := us\<rparr>) = Inl e" by simp
    from gui_get_star_positions_time_error[OF this Inl] show ?thesis .
  next
    case (Inr u)
    with eq have a: "to_utc P (t\<lparr>microsecond := us\<rparr>) = Inr (u\<lparr>microsecond := us\<rparr>)" by simp
    have f: "utc_fields (u\<lparr>microsecond := us\<rparr>) = utc_fields u" by (simp add: utc_fields_def)
    from gui_get_star_positions_fields[OF a Inr f] show ?thesis .
  qed
qed

subsection \<open>The example run\<close>

lemma demo_valid: "valid_datetime demo_time"
  by (simp add: valid_datetime_def demo_time_def days_in_month_def is_leap_def)

lemma demo_stars: "stars_df demo_simulator =
   Some [\<lparr>hip = 1, ra_hours = 1, dec_degrees = 10, magnitude = 1 / 2\<rparr>,
      \<lparr>hip = 2, ra_hours = 2, dec_degrees = - 5, magnitude = 2\<rparr>,
      \<lparr>hip = 3, ra_hours = 3, dec_degrees = 30, magnitude = 4728779608739021 / 1125899906842624\<rparr>,
      \<lparr>hip = 4, ra_hours = 4, dec_degrees = 0, magnitude = 1\<rparr>]"
  by (simp add: demo_simulator_def set_observer_location_def load_star_catalog_def init_def
        demo_catalog_def)

lemma demo_location: "observer_location demo_simulator =
   Some ((), \<lparr>latitude_degrees = 52, longitude_degrees = 13, elevation_m = 34\<rparr>)"
  by (simp add: demo_simulator_def set_observer_location_def load_star_catalog_def init_def)

lemma demo_to_utc: "to_utc demo_provider demo_time = Inr (demo_time\<lparr>tzinfo := Some UTC\<rparr>)"
  by (simp add: to_utc_def astimezone_utc_def demo_time_def)

lemma demo_noon_to_utc: "to_utc demo_provider demo_noon = Inr demo_noon"
  by (simp add: to_utc_def astimezone_utc_def demo_noon_def)

lemma demo_ymd2ord: "ymd2ord 2024 3 1 = 738946"
  by (simp add: ymd2ord_def days_before_year_def days_before_month_def DAYS_BEFORE_MONTH_def
        is_leap_def)

lemma demo_ord2ymd: "ord2ymd 738945 = (2024, 2, 29)"
  by (simp add: ord2ymd_def Let_def DAYS_BEFORE_MONTH_def DAYS_IN_MONTH_def)

lemma demo_ymd2ord': "ymd2ord 2024 2 29 = 738945"
  by (simp add: ymd2ord_def days_before_year_def days_before_month_def DAYS_BEFORE_MONTH_def
        is_leap_def)

lemma demo_zoned_to_utc: "to_utc demo_provider demo_zoned = Inr demo_zoned_utc"
  by (simp add: to_utc_def astimezone_utc_def demo_zoned_def demo_zoned_utc_def datetime_add_def
        demo_ymd2ord demo_ymd2ord' demo_ord2ymd MAXORDINAL_def Let_def)

lemma demo_provider_simps:
  "ts_utc demo_provider timescale f = f"
  "location_at demo_provider loc (yr, mo, d, h, mi, s) = Some h"
  "altaz demo_provider h row =
     Some (if h = 12 then dec_degrees row - 90 else dec_degrees row, 15 * ra_hours row)"
  by (simp_all add: demo_provider_def)

lemma demo_fields:
  "utc_fields (demo_time\<lparr>tzinfo := Some UTC\<rparr>) = (2024, 2, 29, 22, 0, 0)"
  "utc_fields demo_noon = (2024, 2, 29, 12, 0, 0)"
  "utc_fields demo_zoned_utc = (2024, 2, 29, 22, 0, 0)"
  by (simp_all add: utc_fields_def demo_time_def demo_noon_def demo_zoned_utc_def)

lemma demo_run:
  "get_star_positions demo_provider demo_simulator demo_time ''UTC''
     = Inr ([15, 45], [10, 30], [50, 4785074604081151 / 281474976710656])"
  by (simp add: get_star_positions_def demo_stars demo_location demo_to_utc demo_fields
        demo_provider_simps point_sizes_def rsub_def scale_def shift_def clip_def example_roundings float_roundings)

lemma demo_gui_run:
  "gui_get_star_positions demo_provider demo_simulator demo_time ''UTC''
     = Inr ([15, 45], [10, 30], [50, 4785074604081151 / 281474976710656], [''#87CEEB'', ''#FF6B6B''])"
  by (simp add: gui_get_star_positions_def demo_stars demo_location demo_to_utc demo_fields
        demo_provider_simps point_sizes_def rsub_def scale_def shift_def clip_def example_roundings float_roundings star_color_def)

lemma demo_noon_run:
  "get_star_positions demo_provider demo_simulator demo_noon ''UTC'' = Inr ([], [], [])"
  by (simp add: get_star_positions_def demo_stars demo_location demo_noon_to_utc demo_fields
        demo_provider_simps)

lemma demo_zoned_run:
  "gui_get_star_positions demo_provider demo_simulator demo_zoned ''UTC''
     = Inr ([15, 45], [10, 30], [50, 4785074604081151 / 281474976710656], [''#87CEEB'', ''#FF6B6B''])"
  by (simp add: gui_get_star_positions_def demo_stars demo_location demo_zoned_to_utc demo_fields
        demo_provider_simps point_sizes_def rsub_def scale_def shift_def clip_def example_roundings float_roundings star_color_def)

lemma demo_gui_noon_run:
  "gui_get_star_positions demo_provider demo_simulator demo_noon ''UTC'' = Inr ([], [], [], [])"
  by (simp add: gui_get_star_positions_def demo_stars demo_location demo_noon_to_utc demo_fields
        demo_provider_simps)

lemma demo_visible:
  "visible_rows demo_provider 22 (filter (\<lambda>row. magnitude row \<le> 6) demo_catalog) =
     [\<lparr>hip = 1, ra_hours = 1, dec_degrees = 10, magnitude = 1 / 2\<rparr>,
      \<lparr>hip = 3, ra_hours = 3, dec_degrees = 30, magnitude = 4728779608739021 / 1125899906842624\<rparr>]"
  by (simp add: visible_rows_def above_horizon_def demo_provider_simps demo_catalog_def)

lemma demo_rounding_stars: "stars_df demo_rounding_simulator =
   Some [\<lparr>hip = 6, ra_hours = 2, dec_degrees = 20, magnitude = 6980579422424269 / 2251799813685248\<rparr>]"
  by (simp add: demo_rounding_simulator_def set_observer_location_def load_star_catalog_def
        init_def demo_rounding_catalog_def)

lemma demo_rounding_location: "observer_location demo_rounding_simulator =
   Some ((), \<lparr>latitude_degrees = 52, longitude_degrees = 13, elevation_m = 34\<rparr>)"
  by (simp add: demo_rounding_simulator_def set_observer_location_def load_star_catalog_def
        init_def)

lemma demo_rounding_run:
  "get_star_positions demo_provider demo_rounding_simulator demo_time ''UTC''
     = Inr ([30], [20], [39])"
  by (simp add: get_star_positions_def demo_rounding_stars demo_rounding_location demo_to_utc
        demo_fields demo_provider_simps point_sizes_def rsub_def scale_def shift_def clip_def example_roundings float_roundings)

lemma demo_rounding_gui_run:
  "gui_get_star_positions demo_provider demo_rounding_simulator demo_time ''UTC''
     = Inr ([30], [20], [39], [''#FFA500''])"
  by (simp add: gui_get_star_positions_def demo_rounding_stars demo_rounding_location
        demo_to_utc demo_fields demo_provider_simps point_sizes_def rsub_def scale_def shift_def clip_def example_roundings float_roundings star_color_def)

lemma demo_observer:
  "location_at demo_provider ((), \<lparr>latitude_degrees = 52, longitude_degrees = 13, elevation_m = 34\<rparr>)
     (ts_utc demo_provider (ts demo_simulator) (utc_fields (demo_time\<lparr>tzinfo := Some UTC\<rparr>)))
   = Some 22"
  "location_at demo_provider ((), \<lparr>latitude_degrees = 52, longitude_degrees = 13, elevation_m = 34\<rparr>)
     (ts_utc demo_provider (ts demo_simulator) (utc_fields demo_noon))
   = Some 12"
  by (simp_all add: demo_fields demo_provider_simps)

section \<open>Properties\<close>

text \<open>
  C1. Every altitude that \<^verbatim>\<open>get_star_positions\<close> emits, in either variant, is strictly
  greater than zero; the emitted entries are, index by index, the provider's altitude and
  azimuth of the visible rows; and a catalog row whose apparent altitude is at most zero is
  not among the visible rows, so it has no entry in the output.
\<close>

theorem only_above_horizon_emitted:
  assumes "stars_df self = Some df" and "observer_location self = Some loc"
    and "to_utc P time = Inr utc_time"
    and "location_at P loc (ts_utc P (ts self) (utc_fields utc_time)) = Some observer"
  shows "(\<forall>az alt sizes. get_star_positions P self time tzn = Inr (az, alt, sizes) \<longrightarrow>
            (\<forall>a\<in>set alt. 0 < a) \<and>
            length alt = length (visible_rows P observer df) \<and>
            (\<forall>i<length alt.
               altaz P observer (visible_rows P observer df ! i) = Some (alt ! i, az ! i)))
       \<and> (\<forall>az alt sizes colors.
            gui_get_star_positions P self time tzn = Inr (az, alt, sizes, colors) \<longrightarrow>
            (\<forall>a\<in>set alt. 0 < a) \<and>
            length alt = length (visible_rows P observer df) \<and>
            (\<forall>i<length alt.
               altaz P observer (visible_rows P observer df ! i) = Some (alt ! i, az ! i)))
       \<and> (\<forall>row\<in>set df. \<forall>a z. altaz P observer row = Some (a, z) \<and> a \<le> 0 \<longrightarrow>
            row \<notin> set (visible_rows P observer df))"
proof -
  have pos: "\<forall>a\<in>set (map (snd \<circ> position_of P observer) (visible_rows P observer df)). 0 < a"
    using visible_position[of _ P observer df] by fastforce
  have nth: "\<forall>i<length (visible_rows P observer df).
      altaz P observer (visible_rows P observer df ! i)
        = Some (map (snd \<circ> position_of P observer) (visible_rows P observer df) ! i,
                map (fst \<circ> position_of P observer) (visible_rows P observer df) ! i)"
    using visible_nth[of _ P observer df] by simp
  have one: "\<forall>az alt sizes. get_star_positions P self time tzn = Inr (az, alt, sizes) \<longrightarrow>
            (\<forall>a\<in>set alt. 0 < a) \<and>
            length alt = length (visible_rows P observer df) \<and>
            (\<forall>i<length alt.
               altaz P observer (visible_rows P observer df ! i) = Some (alt ! i, az ! i))"
  proof (intro allI impI)
    fix az alt sizes
    assume "get_star_positions P self time tzn = Inr (az, alt, sizes)"
    from get_star_positions_eq[OF assms this]
    have "az = map (fst \<circ> position_of P observer) (visible_rows P observer df)"
      and "alt = map (snd \<circ> position_of P observer) (visible_rows P observer df)" by simp_all
    with pos nth show "(\<forall>a\<in>set alt. 0 < a) \<and>
            length alt = length (visible_rows P observer df) \<and>
            (\<forall>i<length alt.
               altaz P observer (visible_rows P observer df ! i) = Some (alt ! i, az ! i))"
      by simp
  qed
  have two: "\<forall>az alt sizes colors.
            gui_get_star_positions P self time tzn = Inr (az, alt, sizes, colors) \<longrightarrow>
            (\<forall>a\<in>set alt. 0 < a) \<and>
            length alt = length (visible_rows P observer df) \<and>
            (\<forall>i<length alt.
               altaz P observer (visible_rows P observer df ! i) = Some (alt ! i, az ! i))"
  proof (intro allI impI)
    fix az alt sizes colors
    assume "gui_get_star_positions P self time tzn = Inr (az, alt, sizes, colors)"
    from gui_get_star_positions_eq[OF assms this]
    have "az = map (fst \<circ> position_of P observer) (visible_rows P observer df)"
      and "alt = map (snd \<circ> position_of P observer) (visible_rows P observer df)" by simp_all
    with pos nth show "(\<forall>a\<in>set alt. 0 < a) \<and>
            length alt = length (visible_rows P observer df) \<and>
            (\<forall>i<length alt.
               altaz P observer (visible_rows P observer df ! i) = Some (alt ! i, az ! i))"
      by simp
  qed
  have three: "\<forall>row\<in>set df. \<forall>a z. altaz P observer row = Some (a, z) \<and> a \<le> 0 \<longrightarrow>
            row \<notin> set (visible_rows P observer df)"
    using not_visible[of P observer] by blast
  from one two three show ?thesis by blast
qed

theorem only_above_horizon_emitted_witness:
  "stars_df demo_simulator = Some (filter (\<lambda>row. magnitude row \<le> 6) demo_catalog)
   \<and> to_utc demo_provider demo_time = Inr (demo_time\<lparr>tzinfo := Some UTC\<rparr>)
   \<and> gui_get_star_positions demo_provider demo_simulator demo_time ''UTC''
       = Inr ([15, 45], [10, 30], [50, 4785074604081151 / 281474976710656], [''#87CEEB'', ''#FF6B6B''])
   \<and> (0 :: real) < 10 \<and> (0 :: real) < 30
   \<and> demo_catalog ! 1 \<notin> set (visible_rows demo_provider 22
                                 (filter (\<lambda>row. magnitude row \<le> 6) demo_catalog))"
proof -
  have df: "stars_df demo_simulator = Some (filter (\<lambda>row. magnitude row \<le> 6) demo_catalog)"
    by (simp add: demo_stars demo_catalog_def)
  have obs: "location_at demo_provider
               ((), \<lparr>latitude_degrees = 52, longitude_degrees = 13, elevation_m = 34\<rparr>)
               (ts_utc demo_provider (ts demo_simulator)
                  (utc_fields (demo_time\<lparr>tzinfo := Some UTC\<rparr>))) = Some 22"
    by (rule demo_observer)
  have row: "demo_catalog ! 1 \<in> set (filter (\<lambda>row. magnitude row \<le> 6) demo_catalog)"
    by (simp add: demo_catalog_def)
  have below: "altaz demo_provider 22 (demo_catalog ! 1) = Some (- 5, 30) \<and> (- 5 :: real) \<le> 0"
    by (simp add: demo_provider_simps demo_catalog_def)
  from only_above_horizon_emitted[OF df demo_location demo_to_utc obs, of "''UTC''"]
    demo_gui_run row below df demo_to_utc
  show ?thesis by fastforce
qed

text \<open>
  C7. Every point size lies between 1 and 50, and the size does not grow with the
  magnitude: of two magnitudes in the array, the larger one gets a size that is at most the
  size of the smaller one.
\<close>

theorem size_bounded_antitone:
  "(\<forall>s\<in>set (point_sizes ms). 1 \<le> s \<and> s \<le> 50)
   \<and> (\<forall>i<length ms. \<forall>j<length ms. ms ! i \<le> ms ! j \<longrightarrow> point_sizes ms ! j \<le> point_sizes ms ! i)"
proof -
  have "1 \<le> s \<and> s \<le> 50" if "s \<in> set (point_sizes ms)" for s
  proof -
    from that obtain i where "i < length ms" "s = point_sizes ms ! i"
      by (auto simp: in_set_conv_nth length_point_sizes)
    then have "s = clip (shift (scale 20 (rsub 5 (ms ! i))) 1) 1 50"
      by (simp add: point_sizes_nth)
    with clip_bounds[of 1 50] show ?thesis by simp
  qed
  moreover have "point_sizes ms ! j \<le> point_sizes ms ! i"
    if "i < length ms" "j < length ms" "ms ! i \<le> ms ! j" for i j
    using that point_size_antitone[of "ms ! i" "ms ! j"] by (simp add: point_sizes_nth)
  ultimately show ?thesis by blast
qed

theorem size_bounded_antitone_witness:
  "(1 / 2 :: real) \<le> 17 / 4
   \<and> point_sizes [1 / 2, 17 / 4] ! 1 \<le> point_sizes [1 / 2, 17 / 4] ! 0
   \<and> 1 \<le> point_sizes [1 / 2, 17 / 4] ! 1 \<and> point_sizes [1 / 2, 17 / 4] ! 0 \<le> 50"
proof -
  have len: "length (point_sizes [1 / 2, 17 / 4]) = 2" by (simp add: point_sizes_def)
  have m0: "point_sizes [1 / 2, 17 / 4] ! 0 \<in> set (point_sizes [1 / 2, 17 / 4])"
    and m1: "point_sizes [1 / 2, 17 / 4] ! 1 \<in> set (point_sizes [1 / 2, 17 / 4])"
    using len by (simp_all del: One_nat_def)
  have "\<forall>i<2. \<forall>j<2. [1 / 2, 17 / 4 :: real] ! i \<le> [1 / 2, 17 / 4] ! j \<longrightarrow>
          point_sizes [1 / 2, 17 / 4] ! j \<le> point_sizes [1 / 2, 17 / 4] ! i"
    using size_bounded_antitone[of "[1 / 2, 17 / 4]"] by simp
  then have "[1 / 2, 17 / 4 :: real] ! 0 \<le> [1 / 2, 17 / 4] ! 1 \<longrightarrow>
          point_sizes [1 / 2, 17 / 4] ! 1 \<le> point_sizes [1 / 2, 17 / 4] ! 0"
    by (metis pos2 one_less_numeral_iff semiring_norm(76))
  with size_bounded_antitone[of "[1 / 2, 17 / 4]"] m0 m1 show ?thesis by simp
qed

text \<open>
  C2. In both variants the emitted size of a visible row of magnitude \<open>m\<close> is
  \<open>clamp (20 * (5 - m) + 1) 1 50\<close> evaluated in float64 arithmetic: the difference, the
  product and the sum are each rounded to the nearest float, and the result is clipped. The
  size differs from the exact value of the formula by at most \<open>1 / 2 ^ 44\<close>, and it is the
  exact value whenever \<open>5 - m\<close>, \<open>20 * (5 - m)\<close> and \<open>20 * (5 - m) + 1\<close> are floats.
  Magnitude 0.5 gives size 50. The literal \<^verbatim>\<open>4.2\<close> is the float
  \<open>4728779608739021 / 2 ^ 50\<close>, and it gives the size \<open>4785074604081151 / 2 ^ 48\<close>, which is
  \<open>17 - 1 / 2 ^ 48\<close> and is printed as \<^verbatim>\<open>16.999999999999996\<close>.
\<close>

theorem size_is_rounded_clamped_linear:
  assumes "stars_df self = Some df" and "observer_location self = Some loc"
    and "to_utc P time = Inr utc_time"
    and "location_at P loc (ts_utc P (ts self) (utc_fields utc_time)) = Some observer"
  shows "(\<forall>az alt sizes. get_star_positions P self time tzn = Inr (az, alt, sizes) \<longrightarrow>
            list_all2 (\<lambda>s row.
                s = clip (shift (scale 20 (rsub 5 (magnitude row))) 1) 1 50
                \<and> \<bar>s - clamp (20 * (5 - magnitude row) + 1) 1 50\<bar> \<le> 1 / 2 ^ 44
                \<and> (representable (5 - magnitude row)
                     \<and> representable (20 * (5 - magnitude row))
                     \<and> representable (20 * (5 - magnitude row) + 1)
                   \<longrightarrow> s = clamp (20 * (5 - magnitude row) + 1) 1 50))
              sizes (visible_rows P observer df))
       \<and> (\<forall>az alt sizes colors.
            gui_get_star_positions P self time tzn = Inr (az, alt, sizes, colors) \<longrightarrow>
            list_all2 (\<lambda>s row.
                s = clip (shift (scale 20 (rsub 5 (magnitude row))) 1) 1 50
                \<and> \<bar>s - clamp (20 * (5 - magnitude row) + 1) 1 50\<bar> \<le> 1 / 2 ^ 44
                \<and> (representable (5 - magnitude row)
                     \<and> representable (20 * (5 - magnitude row))
                     \<and> representable (20 * (5 - magnitude row) + 1)
                   \<longrightarrow> s = clamp (20 * (5 - magnitude row) + 1) 1 50))
              sizes (visible_rows P observer df))
       \<and> point_sizes [1 / 2] = [50]
       \<and> round64 (42 / 10) = Finite (4728779608739021 / 1125899906842624)
       \<and> point_sizes [4728779608739021 / 1125899906842624] = [4785074604081151 / 281474976710656]
       \<and> (4785074604081151 / 281474976710656 :: real) = 17 - 1 / 2 ^ 48"
proof -
  have one: "\<forall>az alt sizes. get_star_positions P self time tzn = Inr (az, alt, sizes) \<longrightarrow>
            list_all2 (\<lambda>s row.
                s = clip (shift (scale 20 (rsub 5 (magnitude row))) 1) 1 50
                \<and> \<bar>s - clamp (20 * (5 - magnitude row) + 1) 1 50\<bar> \<le> 1 / 2 ^ 44
                \<and> (representable (5 - magnitude row)
                     \<and> representable (20 * (5 - magnitude row))
                     \<and> representable (20 * (5 - magnitude row) + 1)
                   \<longrightarrow> s = clamp (20 * (5 - magnitude row) + 1) 1 50))
              sizes (visible_rows P observer df)"
  proof (intro allI impI)
    fix az alt sizes
    assume "get_star_positions P self time tzn = Inr (az, alt, sizes)"
    from get_star_positions_eq[OF assms this]
    have "sizes = point_sizes (map magnitude (visible_rows P observer df))" by simp
    then show "list_all2 (\<lambda>s row.
                s = clip (shift (scale 20 (rsub 5 (magnitude row))) 1) 1 50
                \<and> \<bar>s - clamp (20 * (5 - magnitude row) + 1) 1 50\<bar> \<le> 1 / 2 ^ 44
                \<and> (representable (5 - magnitude row)
                     \<and> representable (20 * (5 - magnitude row))
                     \<and> representable (20 * (5 - magnitude row) + 1)
                   \<longrightarrow> s = clamp (20 * (5 - magnitude row) + 1) 1 50))
              sizes (visible_rows P observer df)"
      by (simp only: point_sizes_close_rows)
  qed
  have two: "\<forall>az alt sizes colors.
            gui_get_star_positions P self time tzn = Inr (az, alt, sizes, colors) \<longrightarrow>
            list_all2 (\<lambda>s row.
                s = clip (shift (scale 20 (rsub 5 (magnitude row))) 1) 1 50
                \<and> \<bar>s - clamp (20 * (5 - magnitude row) + 1) 1 50\<bar> \<le> 1 / 2 ^ 44
                \<and> (representable (5 - magnitude row)
                     \<and> representable (20 * (5 - magnitude row))
                     \<and> representable (20 * (5 - magnitude row) + 1)
                   \<longrightarrow> s = clamp (20 * (5 - magnitude row) + 1) 1 50))
              sizes (visible_rows P observer df)"
  proof (intro allI impI)
    fix az alt sizes colors
    assume "gui_get_star_positions P self time tzn = Inr (az, alt, sizes, colors)"
    from gui_get_star_positions_eq[OF assms this]
    have "sizes = point_sizes (map magnitude (visible_rows P observer df))" by simp
    then show "list_all2 (\<lambda>s row.
                s = clip (shift (scale 20 (rsub 5 (magnitude row))) 1) 1 50
                \<and> \<bar>s - clamp (20 * (5 - magnitude row) + 1) 1 50\<bar> \<le> 1 / 2 ^ 44
                \<and> (representable (5 - magnitude row)
                     \<and> representable (20 * (5 - magnitude row))
                     \<and> representable (20 * (5 - magnitude row) + 1)
                   \<longrightarrow> s = clamp (20 * (5 - magnitude row) + 1) 1 50))
              sizes (visible_rows P observer df)"
      by (simp only: point_sizes_close_rows)
  qed
  have three: "point_sizes [1 / 2] = [50]"
    "point_sizes [4728779608739021 / 1125899906842624] = [4785074604081151 / 281474976710656]"
    by (simp_all add: point_sizes_def rsub_def scale_def shift_def clip_def example_roundings
          float_roundings)
  have four: "(4785074604081151 / 281474976710656 :: real) = 17 - 1 / 2 ^ 48" by simp
  from one two three four float_literals(1) show ?thesis by blast
qed

theorem size_is_rounded_clamped_linear_witness:
  "stars_df demo_simulator = Some (filter (\<lambda>row. magnitude row \<le> 6) demo_catalog)
   \<and> to_utc demo_provider demo_time = Inr (demo_time\<lparr>tzinfo := Some UTC\<rparr>)
   \<and> get_star_positions demo_provider demo_simulator demo_time ''UTC''
       = Inr ([15, 45], [10, 30], [50, 4785074604081151 / 281474976710656])
   \<and> map magnitude (visible_rows demo_provider 22
                       (filter (\<lambda>row. magnitude row \<le> 6) demo_catalog))
       = [1 / 2, 4728779608739021 / 1125899906842624]
   \<and> \<bar>50 - clamp (20 * (5 - 1 / 2) + 1) 1 50\<bar> \<le> 1 / 2 ^ 44
   \<and> \<bar>4785074604081151 / 281474976710656
        - clamp (20 * (5 - 4728779608739021 / 1125899906842624) + 1) 1 50\<bar> \<le> 1 / 2 ^ 44
   \<and> representable (5 - 1 / 2) \<and> representable (20 * (5 - 1 / 2))
   \<and> representable (20 * (5 - 1 / 2) + 1)
   \<and> (50 :: real) = clamp (20 * (5 - 1 / 2) + 1) 1 50"
proof -
  have df: "stars_df demo_simulator = Some (filter (\<lambda>row. magnitude row \<le> 6) demo_catalog)"
    by (simp add: demo_stars demo_catalog_def)
  have obs: "location_at demo_provider
               ((), \<lparr>latitude_degrees = 52, longitude_degrees = 13, elevation_m = 34\<rparr>)
               (ts_utc demo_provider (ts demo_simulator)
                  (utc_fields (demo_time\<lparr>tzinfo := Some UTC\<rparr>))) = Some 22"
    by (rule demo_observer)
  from size_is_rounded_clamped_linear[OF df demo_location demo_to_utc obs, of "''UTC''"]
    demo_run df demo_to_utc
  show ?thesis by (simp add: demo_visible representable_def example_roundings clamp_def)
qed

text \<open>
  The emitted sizes are not the exact values of the formula. The literal \<^verbatim>\<open>3.1\<close> is the
  float \<open>6980579422424269 / 2 ^ 51\<close>; for a star of that magnitude the program emits the
  size 39, and the exact value of the formula at that float is less than 39. For the float
  of the literal \<^verbatim>\<open>4.2\<close> the program emits a size that is less than 17.
\<close>

theorem size_is_not_exact_clamp:
  "round64 (31 / 10) = Finite (6980579422424269 / 2251799813685248)
   \<and> get_star_positions demo_provider demo_rounding_simulator demo_time ''UTC''
       = Inr ([30], [20], [39])
   \<and> clamp (20 * (5 - 6980579422424269 / 2251799813685248) + 1) 1 50 < 39
   \<and> round64 (42 / 10) = Finite (4728779608739021 / 1125899906842624)
   \<and> get_star_positions demo_provider demo_simulator demo_time ''UTC''
       = Inr ([15, 45], [10, 30], [50, 4785074604081151 / 281474976710656])
   \<and> (4785074604081151 / 281474976710656 :: real) < 17"
  using float_literals demo_rounding_run demo_run by (simp add: clamp_def)

text \<open>
  C3. The colour emitted for a visible row is \<open>star_color\<close> of its magnitude, and
  \<open>star_color\<close> is the five-bucket step function: below 1 sky blue, from 1 to below 2
  white, from 2 to below 3 moccasin, from 3 to below 4 orange, from 4 on light red. The
  buckets cover every real magnitude; magnitude 1 is white and not blue, magnitude 4 is
  light red.
\<close>

theorem color_buckets:
  assumes "stars_df self = Some df" and "observer_location self = Some loc"
    and "to_utc P time = Inr utc_time"
    and "location_at P loc (ts_utc P (ts self) (utc_fields utc_time)) = Some observer"
    and "gui_get_star_positions P self time tzn = Inr (az, alt, sizes, colors)"
  shows "colors = map (\<lambda>row. star_color (magnitude row)) (visible_rows P observer df)
       \<and> (\<forall>m. (m < 1 \<longrightarrow> star_color m = ''#87CEEB'')
              \<and> (1 \<le> m \<and> m < 2 \<longrightarrow> star_color m = ''white'')
              \<and> (2 \<le> m \<and> m < 3 \<longrightarrow> star_color m = ''#FFE4B5'')
              \<and> (3 \<le> m \<and> m < 4 \<longrightarrow> star_color m = ''#FFA500'')
              \<and> (4 \<le> m \<longrightarrow> star_color m = ''#FF6B6B''))
       \<and> star_color 1 = ''white'' \<and> star_color 1 \<noteq> ''#87CEEB''
       \<and> star_color 4 = ''#FF6B6B''"
proof -
  from gui_get_star_positions_eq[OF assms]
  have "colors = map (\<lambda>row. star_color (magnitude row)) (visible_rows P observer df)"
    by simp
  moreover have "\<forall>m. (m < 1 \<longrightarrow> star_color m = ''#87CEEB'')
              \<and> (1 \<le> m \<and> m < 2 \<longrightarrow> star_color m = ''white'')
              \<and> (2 \<le> m \<and> m < 3 \<longrightarrow> star_color m = ''#FFE4B5'')
              \<and> (3 \<le> m \<and> m < 4 \<longrightarrow> star_color m = ''#FFA500'')
              \<and> (4 \<le> m \<longrightarrow> star_color m = ''#FF6B6B'')"
    by (simp add: star_color_def)
  moreover have "star_color 1 = ''white'' \<and> star_color 1 \<noteq> ''#87CEEB''
       \<and> star_color 4 = ''#FF6B6B''"
    by (simp add: star_color_def)
  ultimately show ?thesis by blast
qed

theorem color_buckets_witness:
  "stars_df demo_simulator = Some (filter (\<lambda>row. magnitude row \<le> 6) demo_catalog)
   \<and> to_utc demo_provider demo_time = Inr (demo_time\<lparr>tzinfo := Some UTC\<rparr>)
   \<and> gui_get_star_positions demo_provider demo_simulator demo_time ''UTC''
       = Inr ([15, 45], [10, 30], [50, 4785074604081151 / 281474976710656], [''#87CEEB'', ''#FF6B6B''])
   \<and> [''#87CEEB'', ''#FF6B6B'']
       = map (\<lambda>row. star_color (magnitude row))
           (visible_rows demo_provider 22 (filter (\<lambda>row. magnitude row \<le> 6) demo_catalog))
   \<and> (1 :: real) \<le> 3 / 2 \<and> (3 / 2 :: real) < 2 \<and> star_color (3 / 2) = ''white''"
proof -
  have df: "stars_df demo_simulator = Some (filter (\<lambda>row. magnitude row \<le> 6) demo_catalog)"
    by (simp add: demo_stars demo_catalog_def)
  have obs: "location_at demo_provider
               ((), \<lparr>latitude_degrees = 52, longitude_degrees = 13, elevation_m = 34\<rparr>)
               (ts_utc demo_provider (ts demo_simulator)
                  (utc_fields (demo_time\<lparr>tzinfo := Some UTC\<rparr>))) = Some 22"
    by (rule demo_observer)
  have m: "(1 :: real) \<le> 3 / 2 \<and> (3 / 2 :: real) < 2" by simp
  from color_buckets[OF df demo_location demo_to_utc obs demo_gui_run] m df demo_to_utc
    demo_gui_run
  show ?thesis by simp
qed

text \<open>
  C4. A timestamp without a zone gives exactly the output of the same timestamp with the
  zone \<^verbatim>\<open>timezone.utc\<close> attached, in both variants and whatever the local zone of the
  system is: its UTC time is the timestamp itself, read as UTC. When the fields are those
  of a valid \<^verbatim>\<open>datetime\<close>, the same holds for every zone object whose offset is zero.
\<close>

theorem naive_timestamp_is_utc:
  assumes "tzinfo t = None"
  shows "get_star_positions P self t tzn
           = get_star_positions P self (t\<lparr>tzinfo := Some UTC\<rparr>) tzn
       \<and> gui_get_star_positions P self t tzn
           = gui_get_star_positions P self (t\<lparr>tzinfo := Some UTC\<rparr>) tzn
       \<and> to_utc P t = Inr (t\<lparr>tzinfo := Some UTC\<rparr>)
       \<and> (\<forall>z. valid_datetime t \<and> utcoffset z = 0 \<longrightarrow>
             get_star_positions P self t tzn
               = get_star_positions P self (t\<lparr>tzinfo := Some z\<rparr>) tzn
             \<and> gui_get_star_positions P self t tzn
               = gui_get_star_positions P self (t\<lparr>tzinfo := Some z\<rparr>) tzn)"
proof -
  have eq: "to_utc P t = to_utc P (t\<lparr>tzinfo := Some UTC\<rparr>)"
    using assms by (rule to_utc_naive)
  have b: "to_utc P (t\<lparr>tzinfo := Some UTC\<rparr>) = Inr (t\<lparr>tzinfo := Some UTC\<rparr>)"
    by (rule to_utc_UTC) simp
  with eq have a: "to_utc P t = Inr (t\<lparr>tzinfo := Some UTC\<rparr>)" by simp
  have zero: "get_star_positions P self t tzn
               = get_star_positions P self (t\<lparr>tzinfo := Some z\<rparr>) tzn
             \<and> gui_get_star_positions P self t tzn
               = gui_get_star_positions P self (t\<lparr>tzinfo := Some z\<rparr>) tzn"
    if "valid_datetime t \<and> utcoffset z = 0" for z
  proof -
    from that have c: "to_utc P (t\<lparr>tzinfo := Some z\<rparr>) = Inr (t\<lparr>tzinfo := Some UTC\<rparr>)"
      by (simp add: to_utc_zero_offset)
    from get_star_positions_fields[OF a c refl, of self tzn]
      gui_get_star_positions_fields[OF a c refl, of self tzn]
    show ?thesis by simp
  qed
  from get_star_positions_fields[OF a b refl, of self tzn]
    gui_get_star_positions_fields[OF a b refl, of self tzn] a zero
  show ?thesis by blast
qed

theorem naive_timestamp_is_utc_witness:
  "tzinfo demo_time = None
   \<and> get_star_positions demo_provider demo_simulator demo_time ''UTC''
       = get_star_positions demo_provider demo_simulator (demo_time\<lparr>tzinfo := Some UTC\<rparr>) ''UTC''
   \<and> get_star_positions demo_provider demo_simulator (demo_time\<lparr>tzinfo := Some UTC\<rparr>) ''UTC''
       = Inr ([15, 45], [10, 30], [50, 4785074604081151 / 281474976710656])
   \<and> valid_datetime demo_time \<and> utcoffset (Fixed 0) = 0
   \<and> get_star_positions demo_provider demo_simulator (demo_time\<lparr>tzinfo := Some (Fixed 0)\<rparr>)
        ''UTC''
       = Inr ([15, 45], [10, 30], [50, 4785074604081151 / 281474976710656])"
proof -
  have naive: "tzinfo demo_time = None" by (simp add: demo_time_def)
  have z: "valid_datetime demo_time \<and> utcoffset (Fixed 0) = 0"
    by (simp add: demo_valid)
  from naive_timestamp_is_utc[OF naive, of demo_provider demo_simulator "''UTC''"]
  have "get_star_positions demo_provider demo_simulator demo_time ''UTC''
           = get_star_positions demo_provider demo_simulator (demo_time\<lparr>tzinfo := Some UTC\<rparr>)
               ''UTC''"
    and "valid_datetime demo_time \<and> utcoffset (Fixed 0) = 0 \<longrightarrow>
         get_star_positions demo_provider demo_simulator demo_time ''UTC''
           = get_star_positions demo_provider demo_simulator
               (demo_time\<lparr>tzinfo := Some (Fixed 0)\<rparr>) ''UTC''"
    by blast+
  with naive z demo_run show ?thesis by simp
qed

text \<open>
  C5. When the catalog is loaded, the observer is set, the time converts to UTC and the
  provider places every catalog row at an altitude of at most zero, both variants return
  empty sequences, which is a result and not an error.
\<close>

theorem none_visible_gives_empty:
  assumes "stars_df self = Some df" and "observer_location self = Some loc"
    and "to_utc P time = Inr utc_time"
    and "location_at P loc (ts_utc P (ts self) (utc_fields utc_time)) = Some observer"
    and "\<forall>row\<in>set df. \<exists>a z. altaz P observer row = Some (a, z) \<and> a \<le> 0"
  shows "get_star_positions P self time tzn = Inr ([], [], [])
       \<and> gui_get_star_positions P self time tzn = Inr ([], [], [], [])"
proof -
  have "star_loop P observer df ([], []) = Inr ([], [])"
    using assms(5) by (rule star_loop_below)
  moreover have "gui_star_loop P observer df ([], [], []) = Inr ([], [], [])"
    using assms(5) by (rule gui_star_loop_below)
  ultimately show ?thesis
    using assms(1-4) by (simp add: get_star_positions_def gui_get_star_positions_def
        split: option.splits)
qed

theorem none_visible_gives_empty_witness:
  "stars_df demo_simulator = Some (filter (\<lambda>row. magnitude row \<le> 6) demo_catalog)
   \<and> to_utc demo_provider demo_noon = Inr demo_noon
   \<and> altaz demo_provider 12 (demo_catalog ! 2) = Some (- 60, 45)
   \<and> get_star_positions demo_provider demo_simulator demo_noon ''UTC'' = Inr ([], [], [])
   \<and> gui_get_star_positions demo_provider demo_simulator demo_noon ''UTC''
       = Inr ([], [], [], [])"
proof -
  have df: "stars_df demo_simulator = Some (filter (\<lambda>row. magnitude row \<le> 6) demo_catalog)"
    by (simp add: demo_stars demo_catalog_def)
  have obs: "location_at demo_provider
               ((), \<lparr>latitude_degrees = 52, longitude_degrees = 13, elevation_m = 34\<rparr>)
               (ts_utc demo_provider (ts demo_simulator) (utc_fields demo_noon)) = Some 12"
    by (rule demo_observer)
  have below: "\<forall>row\<in>set (filter (\<lambda>row. magnitude row \<le> 6) demo_catalog).
                 \<exists>a z. altaz demo_provider 12 row = Some (a, z) \<and> a \<le> 0"
    by (simp add: demo_catalog_def demo_provider_simps)
  have one: "altaz demo_provider 12 (demo_catalog ! 2) = Some (- 60, 45)"
    by (simp add: demo_catalog_def demo_provider_simps)
  from none_visible_gives_empty[OF df demo_location demo_noon_to_utc obs below, of "''UTC''"]
    df demo_noon_to_utc one
  show ?thesis by simp
qed

text \<open>
  C6. If the catalog has not been loaded or the observer location has not been set, both
  variants fail with the precondition error and return nothing; if both are set, the
  result is never that error.
\<close>

theorem precondition_error:
  "(stars_df self = None \<or> observer_location self = None \<longrightarrow>
      get_star_positions P self time tzn = Inl ValueError
      \<and> gui_get_star_positions P self time tzn = Inl ValueError)
   \<and> (stars_df self \<noteq> None \<and> observer_location self \<noteq> None \<longrightarrow>
      get_star_positions P self time tzn \<noteq> Inl ValueError
      \<and> gui_get_star_positions P self time tzn \<noteq> Inl ValueError)"
  using get_star_positions_unset[of self P time tzn]
    gui_get_star_positions_unset[of self P time tzn]
    get_star_positions_set[of self _ _ P time tzn]
    gui_get_star_positions_set[of self _ _ P time tzn]
  by blast

theorem precondition_error_witness:
  "stars_df (init () () ()) = None
   \<and> get_star_positions demo_provider (init () () ()) demo_time ''UTC'' = Inl ValueError
   \<and> observer_location (load_star_catalog (init () () ()) demo_catalog 6) = None
   \<and> gui_get_star_positions demo_provider (load_star_catalog (init () () ()) demo_catalog 6)
        demo_time ''UTC'' = Inl ValueError
   \<and> stars_df (set_observer_location (init () () ()) 52 13 34) = None
   \<and> get_star_positions demo_provider (set_observer_location (init () () ()) 52 13 34)
        demo_time ''UTC'' = Inl ValueError
   \<and> stars_df demo_simulator \<noteq> None \<and> observer_location demo_simulator \<noteq> None
   \<and> get_star_positions demo_provider demo_simulator demo_time ''UTC'' \<noteq> Inl ValueError"
proof -
  have a: "stars_df (init () () ()) = None" by (simp add: init_def)
  have b: "observer_location (load_star_catalog (init () () ()) demo_catalog 6) = None"
    by (simp add: init_def load_star_catalog_def)
  have c: "stars_df (set_observer_location (init () () ()) 52 13 34) = None"
    by (simp add: init_def set_observer_location_def)
  have d: "stars_df demo_simulator \<noteq> None \<and> observer_location demo_simulator \<noteq> None"
    by (simp add: demo_stars demo_location)
  from precondition_error[of "init () () ()" demo_provider demo_time "''UTC''"]
    precondition_error[of "load_star_catalog (init () () ()) demo_catalog 6" demo_provider
      demo_time "''UTC''"]
    precondition_error[of "set_observer_location (init () () ()) 52 13 34" demo_provider
      demo_time "''UTC''"]
    precondition_error[of demo_simulator demo_provider demo_time "''UTC''"]
    a b c d
  show ?thesis by blast
qed



text \<open>
  C9. Setting the observer location replaces the observer location and the observer
  coordinates and nothing else: the catalog, the ephemeris, the Earth body, the time scale
  and any further attribute of the simulator are as before.
\<close>

theorem set_observer_location_frame:
  "stars_df (set_observer_location self la lo el) = stars_df self
   \<and> load_planets (set_observer_location self la lo el) = load_planets self
   \<and> earth (set_observer_location self la lo el) = earth self
   \<and> ts (set_observer_location self la lo el) = ts self
   \<and> sky_simulator.more (set_observer_location self la lo el) = sky_simulator.more self
   \<and> observer_location (set_observer_location self la lo el)
       = Some (earth self, \<lparr>latitude_degrees = la, longitude_degrees = lo, elevation_m = el\<rparr>)
   \<and> observer_coords (set_observer_location self la lo el) = Some (la, lo)
   \<and> set_observer_location self la lo el
       = self\<lparr>observer_location := observer_location (set_observer_location self la lo el),
              observer_coords := observer_coords (set_observer_location self la lo el)\<rparr>
   \<and> stars_df (set_observer_location (load_star_catalog self df mx) la lo el)
       = Some (filter (\<lambda>row. magnitude row \<le> mx) df)"
  by (simp add: set_observer_location_def load_star_catalog_def)

text \<open>
  C10. The part of a timestamp below the second is ignored. Two timestamps whose UTC times
  agree on year, month, day, hour, minute and second give the same output in both
  variants, whatever their microseconds. In particular, replacing the microsecond of a
  timestamp by another one changes nothing when the timestamp is naive, carries the zone
  \<^verbatim>\<open>timezone.utc\<close>, or carries a zone whose offset is a whole number of seconds.
\<close>

theorem subsecond_ignored:
  assumes "to_utc P t1 = Inr u1" and "to_utc P t2 = Inr u2"
    and "year u1 = year u2" and "month u1 = month u2" and "day u1 = day u2"
    and "hour u1 = hour u2" and "minute u1 = minute u2" and "second u1 = second u2"
  shows "get_star_positions P self t1 tzn = get_star_positions P self t2 tzn
       \<and> gui_get_star_positions P self t1 tzn = gui_get_star_positions P self t2 tzn
       \<and> (\<forall>t us. 0 \<le> us \<and> us < 1000000 \<and> 0 \<le> microsecond t \<and> microsecond t < 1000000
                 \<and> (\<forall>off. tzinfo t = Some (Fixed off) \<longrightarrow> off mod 1000000 = 0) \<longrightarrow>
            get_star_positions P self (t\<lparr>microsecond := us\<rparr>) tzn
              = get_star_positions P self t tzn
            \<and> gui_get_star_positions P self (t\<lparr>microsecond := us\<rparr>) tzn
              = gui_get_star_positions P self t tzn)"
proof -
  have f: "utc_fields u1 = utc_fields u2"
    using assms(3-8) by (simp add: utc_fields_def)
  have micro: "get_star_positions P self (t\<lparr>microsecond := us\<rparr>) tzn
              = get_star_positions P self t tzn
            \<and> gui_get_star_positions P self (t\<lparr>microsecond := us\<rparr>) tzn
              = gui_get_star_positions P self t tzn"
    if "0 \<le> us \<and> us < 1000000 \<and> 0 \<le> microsecond t \<and> microsecond t < 1000000
          \<and> (\<forall>off. tzinfo t = Some (Fixed off) \<longrightarrow> off mod 1000000 = 0)" for t us
    using that microsecond_irrelevant[of us t P self tzn] by blast
  from get_star_positions_fields[OF assms(1,2) f, of self tzn]
    gui_get_star_positions_fields[OF assms(1,2) f, of self tzn] micro
  show ?thesis by blast
qed

theorem subsecond_ignored_witness:
  "to_utc demo_provider demo_time = Inr (demo_time\<lparr>tzinfo := Some UTC\<rparr>)
   \<and> to_utc demo_provider demo_zoned = Inr demo_zoned_utc
   \<and> utc_fields (demo_time\<lparr>tzinfo := Some UTC\<rparr>) = utc_fields demo_zoned_utc
   \<and> microsecond (demo_time\<lparr>tzinfo := Some UTC\<rparr>) = 0 \<and> microsecond demo_zoned_utc = 250000
   \<and> gui_get_star_positions demo_provider demo_simulator demo_time ''UTC''
       = gui_get_star_positions demo_provider demo_simulator demo_zoned ''UTC''
   \<and> gui_get_star_positions demo_provider demo_simulator demo_zoned ''UTC''
       = Inr ([15, 45], [10, 30], [50, 4785074604081151 / 281474976710656], [''#87CEEB'', ''#FF6B6B''])
   \<and> microsecond demo_zoned = 250000 \<and> tzinfo demo_zoned = Some (Fixed 7200000000)
   \<and> (7200000000 :: int) mod 1000000 = 0
   \<and> gui_get_star_positions demo_provider demo_simulator (demo_zoned\<lparr>microsecond := 999999\<rparr>)
        ''UTC''
       = Inr ([15, 45], [10, 30], [50, 4785074604081151 / 281474976710656], [''#87CEEB'', ''#FF6B6B''])"
proof -
  have y: "year (demo_time\<lparr>tzinfo := Some UTC\<rparr>) = year demo_zoned_utc"
    and mo: "month (demo_time\<lparr>tzinfo := Some UTC\<rparr>) = month demo_zoned_utc"
    and d: "day (demo_time\<lparr>tzinfo := Some UTC\<rparr>) = day demo_zoned_utc"
    and h: "hour (demo_time\<lparr>tzinfo := Some UTC\<rparr>) = hour demo_zoned_utc"
    and mi: "minute (demo_time\<lparr>tzinfo := Some UTC\<rparr>) = minute demo_zoned_utc"
    and s: "second (demo_time\<lparr>tzinfo := Some UTC\<rparr>) = second demo_zoned_utc"
    by (simp_all add: demo_time_def demo_zoned_utc_def)
  have us: "microsecond (demo_time\<lparr>tzinfo := Some UTC\<rparr>) = 0
            \<and> microsecond demo_zoned_utc = 250000"
    by (simp add: demo_time_def demo_zoned_utc_def)
  have z: "microsecond demo_zoned = 250000 \<and> tzinfo demo_zoned = Some (Fixed 7200000000)"
    by (simp add: demo_zoned_def)
  have pre: "(0 :: int) \<le> 999999 \<and> (999999 :: int) < 1000000
       \<and> 0 \<le> microsecond demo_zoned \<and> microsecond demo_zoned < 1000000
       \<and> (\<forall>off. tzinfo demo_zoned = Some (Fixed off) \<longrightarrow> off mod 1000000 = 0)"
    by (simp add: demo_zoned_def)
  note inst = subsecond_ignored[OF demo_to_utc demo_zoned_to_utc y mo d h mi s,
      of demo_simulator "''UTC''"]
  from inst have one: "gui_get_star_positions demo_provider demo_simulator demo_time ''UTC''
       = gui_get_star_positions demo_provider demo_simulator demo_zoned ''UTC''"
    by blast
  from inst pre
  have two: "gui_get_star_positions demo_provider demo_simulator
               (demo_zoned\<lparr>microsecond := 999999\<rparr>) ''UTC''
       = gui_get_star_positions demo_provider demo_simulator demo_zoned ''UTC''"
    by blast
  from one two demo_to_utc demo_zoned_to_utc demo_fields us z demo_zoned_run
  show ?thesis by simp
qed

end
